theory Spec2Isabelle
  imports Main "HOL-Library.Word"
begin

unbundle bit_operations_syntax

section \<open>Bytes and big-endian words\<close>

text \<open>
  Go's \<open>byte\<close>, \<open>uint32\<close> and \<open>uint64\<close> are words of 8, 32 and 64 bits: addition
  wraps around, shifts drop the bits that leave the word. A \<open>[]byte\<close> is a list of bytes.
\<close>

type_synonym byte = "8 word"
type_synonym uint32 = "32 word"
type_synonym uint64 = "64 word"

text \<open>\<open>binary.BigEndian.PutUint32\<close> and \<open>PutUint64\<close>: most significant byte first.\<close>

definition be_bytes32 :: "uint32 \<Rightarrow> byte list" where
  "be_bytes32 w = [ucast (drop_bit 24 w), ucast (drop_bit 16 w), ucast (drop_bit 8 w), ucast w]"

definition be_bytes64 :: "uint64 \<Rightarrow> byte list" where
  "be_bytes64 w =
     [ucast (drop_bit 56 w), ucast (drop_bit 48 w), ucast (drop_bit 40 w), ucast (drop_bit 32 w),
      ucast (drop_bit 24 w), ucast (drop_bit 16 w), ucast (drop_bit 8 w), ucast w]"

text \<open>\<open>binary.BigEndian.Uint32\<close> and \<open>Uint64\<close> of a slice of four or eight bytes.\<close>

definition be_uint32 :: "byte list \<Rightarrow> uint32" where
  "be_uint32 bs = foldl (\<lambda>acc b. push_bit 8 acc OR ucast b) 0 bs"

definition be_uint64 :: "byte list \<Rightarrow> uint64" where
  "be_uint64 bs = foldl (\<lambda>acc b. push_bit 8 acc OR ucast b) 0 bs"

text \<open>Cutting a byte sequence into blocks of \<open>n\<close> (the last one may be shorter).\<close>

function chunks :: "nat \<Rightarrow> 'a list \<Rightarrow> 'a list list" where
  "chunks n xs = (if n = 0 \<or> xs = [] then [] else take n xs # chunks n (drop n xs))"
  by pat_completeness auto
termination
  by (relation "measure (\<lambda>(n, xs). length xs)") auto

declare chunks.simps [simp del]

section \<open>The hash primitives of the standard library\<close>

text \<open>
  \<open>getHash\<close> selects one of \<open>crypto/sha1\<close>, \<open>crypto/sha256\<close> and \<open>crypto/sha512\<close>, and
  \<open>generateOTP\<close> keys it with \<open>crypto/hmac\<close>. These packages belong to the Go standard
  library, not to the repository; they are written out here after FIPS 180-4 and RFC 2104,
  which the library implements, so that codes can be computed for concrete secrets.
\<close>

subsection \<open>SHA-1\<close>

text \<open>Padding for the 64-byte block hashes: \<open>0x80\<close>, zeros, and the bit length in 8 bytes.\<close>

definition md_pad64 :: "byte list \<Rightarrow> byte list" where
  "md_pad64 msg =
     msg @ [0x80] @ replicate ((119 - length msg mod 64) mod 64) 0
       @ be_bytes64 (of_nat (8 * length msg))"

definition rotl32 :: "nat \<Rightarrow> uint32 \<Rightarrow> uint32" where
  "rotl32 n x = (push_bit n x) OR (drop_bit (32 - n) x)"

definition rotr32 :: "nat \<Rightarrow> uint32 \<Rightarrow> uint32" where
  "rotr32 n x = (drop_bit n x) OR (push_bit (32 - n) x)"

definition sha_ch :: "'a::len word \<Rightarrow> 'a word \<Rightarrow> 'a word \<Rightarrow> 'a word" where
  "sha_ch x y z = (x AND y) XOR ((NOT x) AND z)"

definition sha_parity :: "'a::len word \<Rightarrow> 'a word \<Rightarrow> 'a word \<Rightarrow> 'a word" where
  "sha_parity x y z = x XOR (y XOR z)"

definition sha_maj :: "'a::len word \<Rightarrow> 'a word \<Rightarrow> 'a word \<Rightarrow> 'a word" where
  "sha_maj x y z = (x AND y) XOR ((x AND z) XOR (y AND z))"

text \<open>
  The message schedule, built most recent word first: \<open>r ! k\<close> is the word \<open>k + 1\<close> places
  back.
\<close>

fun sha1_extend :: "nat \<Rightarrow> uint32 list \<Rightarrow> uint32 list" where
  "sha1_extend 0 r = r"
| "sha1_extend (Suc n) r =
     sha1_extend n (rotl32 1 ((r ! 2) XOR ((r ! 7) XOR ((r ! 13) XOR (r ! 15)))) # r)"

definition sha1_schedule :: "byte list \<Rightarrow> uint32 list" where
  "sha1_schedule blk = rev (sha1_extend 64 (rev (map be_uint32 (chunks 4 blk))))"

type_synonym sha1_state = "uint32 \<times> uint32 \<times> uint32 \<times> uint32 \<times> uint32"

fun sha1_round ::
  "(uint32 \<Rightarrow> uint32 \<Rightarrow> uint32 \<Rightarrow> uint32) \<Rightarrow> uint32 \<Rightarrow> sha1_state \<Rightarrow> uint32 \<Rightarrow> sha1_state" where
  "sha1_round f k (a, b, c, d, e) w = (rotl32 5 a + f b c d + e + k + w, a, rotl32 30 b, c, d)"

text \<open>Eighty rounds in four stages of twenty, each with its own function and constant.\<close>

definition sha1_rounds :: "sha1_state \<Rightarrow> uint32 list \<Rightarrow> sha1_state" where
  "sha1_rounds s w =
     foldl (sha1_round sha_parity 0xCA62C1D6)
       (foldl (sha1_round sha_maj 0x8F1BBCDC)
          (foldl (sha1_round sha_parity 0x6ED9EBA1)
             (foldl (sha1_round sha_ch 0x5A827999) s (take 20 w))
             (take 20 (drop 20 w)))
          (take 20 (drop 40 w)))
       (take 20 (drop 60 w))"

fun sha1_add :: "sha1_state \<Rightarrow> sha1_state \<Rightarrow> sha1_state" where
  "sha1_add (h0, h1, h2, h3, h4) (a, b, c, d, e) = (h0 + a, h1 + b, h2 + c, h3 + d, h4 + e)"

definition sha1_block :: "sha1_state \<Rightarrow> byte list \<Rightarrow> sha1_state" where
  "sha1_block h blk = sha1_add h (sha1_rounds h (sha1_schedule blk))"

fun sha1_out :: "sha1_state \<Rightarrow> byte list" where
  "sha1_out (h0, h1, h2, h3, h4) = concat (map be_bytes32 [h0, h1, h2, h3, h4])"

definition sha1_init :: sha1_state where
  "sha1_init = (0x67452301, 0xEFCDAB89, 0x98BADCFE, 0x10325476, 0xC3D2E1F0)"

definition sha1 :: "byte list \<Rightarrow> byte list" where
  "sha1 msg = sha1_out (foldl sha1_block sha1_init (chunks 64 (md_pad64 msg)))"

subsection \<open>SHA-256\<close>

definition sha256_K :: "uint32 list" where
  "sha256_K =
     [0x428A2F98, 0x71374491, 0xB5C0FBCF, 0xE9B5DBA5, 0x3956C25B, 0x59F111F1,
      0x923F82A4, 0xAB1C5ED5, 0xD807AA98, 0x12835B01, 0x243185BE, 0x550C7DC3,
      0x72BE5D74, 0x80DEB1FE, 0x9BDC06A7, 0xC19BF174, 0xE49B69C1, 0xEFBE4786,
      0x0FC19DC6, 0x240CA1CC, 0x2DE92C6F, 0x4A7484AA, 0x5CB0A9DC, 0x76F988DA,
      0x983E5152, 0xA831C66D, 0xB00327C8, 0xBF597FC7, 0xC6E00BF3, 0xD5A79147,
      0x06CA6351, 0x14292967, 0x27B70A85, 0x2E1B2138, 0x4D2C6DFC, 0x53380D13,
      0x650A7354, 0x766A0ABB, 0x81C2C92E, 0x92722C85, 0xA2BFE8A1, 0xA81A664B,
      0xC24B8B70, 0xC76C51A3, 0xD192E819, 0xD6990624, 0xF40E3585, 0x106AA070,
      0x19A4C116, 0x1E376C08, 0x2748774C, 0x34B0BCB5, 0x391C0CB3, 0x4ED8AA4A,
      0x5B9CCA4F, 0x682E6FF3, 0x748F82EE, 0x78A5636F, 0x84C87814, 0x8CC70208,
      0x90BEFFFA, 0xA4506CEB, 0xBEF9A3F7, 0xC67178F2]"

definition sha256_s0 :: "uint32 \<Rightarrow> uint32" where
  "sha256_s0 x = (rotr32 7 x) XOR ((rotr32 18 x) XOR (drop_bit 3 x))"

definition sha256_s1 :: "uint32 \<Rightarrow> uint32" where
  "sha256_s1 x = (rotr32 17 x) XOR ((rotr32 19 x) XOR (drop_bit 10 x))"

definition sha256_S0 :: "uint32 \<Rightarrow> uint32" where
  "sha256_S0 x = (rotr32 2 x) XOR ((rotr32 13 x) XOR (rotr32 22 x))"

definition sha256_S1 :: "uint32 \<Rightarrow> uint32" where
  "sha256_S1 x = (rotr32 6 x) XOR ((rotr32 11 x) XOR (rotr32 25 x))"

fun sha256_extend :: "nat \<Rightarrow> uint32 list \<Rightarrow> uint32 list" where
  "sha256_extend 0 r = r"
| "sha256_extend (Suc n) r =
     sha256_extend n ((sha256_s1 (r ! 1) + r ! 6 + sha256_s0 (r ! 14) + r ! 15) # r)"

definition sha256_schedule :: "byte list \<Rightarrow> uint32 list" where
  "sha256_schedule blk = rev (sha256_extend 48 (rev (map be_uint32 (chunks 4 blk))))"

type_synonym sha256_state =
  "uint32 \<times> uint32 \<times> uint32 \<times> uint32 \<times> uint32 \<times> uint32 \<times> uint32 \<times> uint32"

fun sha256_round :: "sha256_state \<Rightarrow> uint32 \<times> uint32 \<Rightarrow> sha256_state" where
  "sha256_round (a, b, c, d, e, f, g, h) (k, w) =
     (let t1 = h + sha256_S1 e + sha_ch e f g + k + w;
          t2 = sha256_S0 a + sha_maj a b c
      in (t1 + t2, a, b, c, d + t1, e, f, g))"

fun sha256_add :: "sha256_state \<Rightarrow> sha256_state \<Rightarrow> sha256_state" where
  "sha256_add (h0, h1, h2, h3, h4, h5, h6, h7) (a, b, c, d, e, f, g, h) =
     (h0 + a, h1 + b, h2 + c, h3 + d, h4 + e, h5 + f, h6 + g, h7 + h)"

definition sha256_block :: "sha256_state \<Rightarrow> byte list \<Rightarrow> sha256_state" where
  "sha256_block h blk =
     sha256_add h (foldl sha256_round h (zip sha256_K (sha256_schedule blk)))"

fun sha256_out :: "sha256_state \<Rightarrow> byte list" where
  "sha256_out (h0, h1, h2, h3, h4, h5, h6, h7) =
     concat (map be_bytes32 [h0, h1, h2, h3, h4, h5, h6, h7])"

definition sha256 :: "byte list \<Rightarrow> byte list" where
  "sha256 msg =
     sha256_out (foldl sha256_block
       (0x6A09E667, 0xBB67AE85, 0x3C6EF372, 0xA54FF53A,
        0x510E527F, 0x9B05688C, 0x1F83D9AB, 0x5BE0CD19)
       (chunks 64 (md_pad64 msg)))"

subsection \<open>SHA-512\<close>

text \<open>128-byte blocks; the bit length takes 16 bytes, of which the upper 8 are zero here.\<close>

definition md_pad128 :: "byte list \<Rightarrow> byte list" where
  "md_pad128 msg =
     msg @ [0x80] @ replicate ((239 - length msg mod 128) mod 128) 0
       @ replicate 8 0 @ be_bytes64 (of_nat (8 * length msg))"

definition rotr64 :: "nat \<Rightarrow> uint64 \<Rightarrow> uint64" where
  "rotr64 n x = (drop_bit n x) OR (push_bit (64 - n) x)"

definition sha512_K :: "uint64 list" where
  "sha512_K =
     [0x428A2F98D728AE22, 0x7137449123EF65CD, 0xB5C0FBCFEC4D3B2F, 0xE9B5DBA58189DBBC,
      0x3956C25BF348B538, 0x59F111F1B605D019, 0x923F82A4AF194F9B, 0xAB1C5ED5DA6D8118,
      0xD807AA98A3030242, 0x12835B0145706FBE, 0x243185BE4EE4B28C, 0x550C7DC3D5FFB4E2,
      0x72BE5D74F27B896F, 0x80DEB1FE3B1696B1, 0x9BDC06A725C71235, 0xC19BF174CF692694,
      0xE49B69C19EF14AD2, 0xEFBE4786384F25E3, 0x0FC19DC68B8CD5B5, 0x240CA1CC77AC9C65,
      0x2DE92C6F592B0275, 0x4A7484AA6EA6E483, 0x5CB0A9DCBD41FBD4, 0x76F988DA831153B5,
      0x983E5152EE66DFAB, 0xA831C66D2DB43210, 0xB00327C898FB213F, 0xBF597FC7BEEF0EE4,
      0xC6E00BF33DA88FC2, 0xD5A79147930AA725, 0x06CA6351E003826F, 0x142929670A0E6E70,
      0x27B70A8546D22FFC, 0x2E1B21385C26C926, 0x4D2C6DFC5AC42AED, 0x53380D139D95B3DF,
      0x650A73548BAF63DE, 0x766A0ABB3C77B2A8, 0x81C2C92E47EDAEE6, 0x92722C851482353B,
      0xA2BFE8A14CF10364, 0xA81A664BBC423001, 0xC24B8B70D0F89791, 0xC76C51A30654BE30,
      0xD192E819D6EF5218, 0xD69906245565A910, 0xF40E35855771202A, 0x106AA07032BBD1B8,
      0x19A4C116B8D2D0C8, 0x1E376C085141AB53, 0x2748774CDF8EEB99, 0x34B0BCB5E19B48A8,
      0x391C0CB3C5C95A63, 0x4ED8AA4AE3418ACB, 0x5B9CCA4F7763E373, 0x682E6FF3D6B2B8A3,
      0x748F82EE5DEFB2FC, 0x78A5636F43172F60, 0x84C87814A1F0AB72, 0x8CC702081A6439EC,
      0x90BEFFFA23631E28, 0xA4506CEBDE82BDE9, 0xBEF9A3F7B2C67915, 0xC67178F2E372532B,
      0xCA273ECEEA26619C, 0xD186B8C721C0C207, 0xEADA7DD6CDE0EB1E, 0xF57D4F7FEE6ED178,
      0x06F067AA72176FBA, 0x0A637DC5A2C898A6, 0x113F9804BEF90DAE, 0x1B710B35131C471B,
      0x28DB77F523047D84, 0x32CAAB7B40C72493, 0x3C9EBE0A15C9BEBC, 0x431D67C49C100D4C,
      0x4CC5D4BECB3E42B6, 0x597F299CFC657E2A, 0x5FCB6FAB3AD6FAEC, 0x6C44198C4A475817]"

definition sha512_s0 :: "uint64 \<Rightarrow> uint64" where
  "sha512_s0 x = (rotr64 1 x) XOR ((rotr64 8 x) XOR (drop_bit 7 x))"

definition sha512_s1 :: "uint64 \<Rightarrow> uint64" where
  "sha512_s1 x = (rotr64 19 x) XOR ((rotr64 61 x) XOR (drop_bit 6 x))"

definition sha512_S0 :: "uint64 \<Rightarrow> uint64" where
  "sha512_S0 x = (rotr64 28 x) XOR ((rotr64 34 x) XOR (rotr64 39 x))"

definition sha512_S1 :: "uint64 \<Rightarrow> uint64" where
  "sha512_S1 x = (rotr64 14 x) XOR ((rotr64 18 x) XOR (rotr64 41 x))"

fun sha512_extend :: "nat \<Rightarrow> uint64 list \<Rightarrow> uint64 list" where
  "sha512_extend 0 r = r"
| "sha512_extend (Suc n) r =
     sha512_extend n ((sha512_s1 (r ! 1) + r ! 6 + sha512_s0 (r ! 14) + r ! 15) # r)"

definition sha512_schedule :: "byte list \<Rightarrow> uint64 list" where
  "sha512_schedule blk = rev (sha512_extend 64 (rev (map be_uint64 (chunks 8 blk))))"

type_synonym sha512_state =
  "uint64 \<times> uint64 \<times> uint64 \<times> uint64 \<times> uint64 \<times> uint64 \<times> uint64 \<times> uint64"

fun sha512_round :: "sha512_state \<Rightarrow> uint64 \<times> uint64 \<Rightarrow> sha512_state" where
  "sha512_round (a, b, c, d, e, f, g, h) (k, w) =
     (let t1 = h + sha512_S1 e + sha_ch e f g + k + w;
          t2 = sha512_S0 a + sha_maj a b c
      in (t1 + t2, a, b, c, d + t1, e, f, g))"

fun sha512_add :: "sha512_state \<Rightarrow> sha512_state \<Rightarrow> sha512_state" where
  "sha512_add (h0, h1, h2, h3, h4, h5, h6, h7) (a, b, c, d, e, f, g, h) =
     (h0 + a, h1 + b, h2 + c, h3 + d, h4 + e, h5 + f, h6 + g, h7 + h)"

definition sha512_block :: "sha512_state \<Rightarrow> byte list \<Rightarrow> sha512_state" where
  "sha512_block h blk =
     sha512_add h (foldl sha512_round h (zip sha512_K (sha512_schedule blk)))"

fun sha512_out :: "sha512_state \<Rightarrow> byte list" where
  "sha512_out (h0, h1, h2, h3, h4, h5, h6, h7) =
     concat (map be_bytes64 [h0, h1, h2, h3, h4, h5, h6, h7])"

definition sha512 :: "byte list \<Rightarrow> byte list" where
  "sha512 msg =
     sha512_out (foldl sha512_block
       (0x6A09E667F3BCC908, 0xBB67AE8584CAA73B, 0x3C6EF372FE94F82B, 0xA54FF53A5F1D36F1,
        0x510E527FADE682D1, 0x9B05688C2B3E6C1F, 0x1F83D9ABFB41BD6B, 0x5BE0CD19137E2179)
       (chunks 128 (md_pad128 msg)))"

subsection \<open>HMAC\<close>

text \<open>
  \<open>hmac.New(h, key)\<close> followed by \<open>Write\<close> and \<open>Sum(nil)\<close>: a key longer than the block
  is hashed first, then padded with zeros to the block size \<open>bs\<close>; the result is
  \<open>H (opad @ H (ipad @ msg))\<close>.
\<close>

definition hmac_key :: "(byte list \<Rightarrow> byte list) \<Rightarrow> nat \<Rightarrow> byte list \<Rightarrow> byte list" where
  "hmac_key H bs key =
     (if bs < length key then H key @ replicate (bs - length (H key)) 0
      else key @ replicate (bs - length key) 0)"

definition hmac_sum :: "(byte list \<Rightarrow> byte list) \<Rightarrow> byte list \<Rightarrow> byte list \<Rightarrow> byte list" where
  "hmac_sum H k msg = H (map (\<lambda>b. b XOR 0x5C) k @ H (map (\<lambda>b. b XOR 0x36) k @ msg))"

definition hmac :: "(byte list \<Rightarrow> byte list) \<times> nat \<Rightarrow> byte list \<Rightarrow> byte list \<Rightarrow> byte list" where
  "hmac h key msg = hmac_sum (fst h) (hmac_key (fst h) (snd h) key) msg"

section \<open>Strings and numbers of the standard library\<close>

text \<open>
  A Go string is a sequence of bytes, here a \<open>string\<close>.

  \<open>strings.ToUpper\<close> maps the code points of a string by the case tables of the Unicode
  standard, which are data of the standard library and are not written out here. The
  operations that call it take it as their first argument \<open>upper\<close>, and what is proved of
  them is proved for every function \<open>upper\<close>, so for the library's whatever its tables hold.

  On a string of ASCII bytes \<open>strings.ToUpper\<close> takes a path of its own, which replaces
  \<open>a\<close>..\<open>z\<close> by \<open>A\<close>..\<open>Z\<close> and leaves every other byte. \<open>ToUpper_ascii\<close> is that path; it
  stands for the library function where a secret written in ASCII is computed with.
\<close>

definition to_upper_char :: "char \<Rightarrow> char" where
  "to_upper_char ch =
     (case map_of (zip ''abcdefghijklmnopqrstuvwxyz'' ''ABCDEFGHIJKLMNOPQRSTUVWXYZ'') ch of
        Some u \<Rightarrow> u
      | None \<Rightarrow> ch)"

definition ToUpper_ascii :: "string \<Rightarrow> string" where
  "ToUpper_ascii s = map to_upper_char s"

text \<open>\<open>strings.ReplaceAll(s, " ", "")\<close> and the like: every occurrence of one byte removed.\<close>

definition remove_char :: "char \<Rightarrow> string \<Rightarrow> string" where
  "remove_char ch s = filter (\<lambda>x. x \<noteq> ch) s"

text \<open>Decimal notation, as \<open>strconv\<close> and \<open>fmt\<close> print it.\<close>

definition digit_char :: "nat \<Rightarrow> char" where
  "digit_char d = ''0123456789'' ! d"

function decimal :: "nat \<Rightarrow> string" where
  "decimal n = (if n < 10 then [digit_char n] else decimal (n div 10) @ [digit_char (n mod 10)])"
  by pat_completeness auto
termination
  by (relation "measure id") auto

declare decimal.simps [simp del]

text \<open>\<open>fmt.Sprintf("%0Nd", v)\<close> for an unsigned \<open>v\<close>: zeros on the left up to width \<open>N\<close>.\<close>

definition sprintf_0d :: "int \<Rightarrow> nat \<Rightarrow> string" where
  "sprintf_0d width v = replicate (nat width - length (decimal v)) (CHR ''0'') @ decimal v"

section \<open>Configuration and errors\<close>

text \<open>
  \<open>type Algorithm int\<close> with the constants 0, 1 and 2; Go's \<open>int\<close> fields are integers
  here, a \<open>uint64\<close> is a 64-bit word and the conversion \<open>uint64(x)\<close> is \<open>word_of_int x\<close>.
  On the supported platforms an \<open>int\<close> has 64 bits; \<open>int_range\<close> says that a value is one.
\<close>

type_synonym Algorithm = int

definition AlgorithmSHA1 :: Algorithm where "AlgorithmSHA1 = 0"
definition AlgorithmSHA256 :: Algorithm where "AlgorithmSHA256 = 1"
definition AlgorithmSHA512 :: Algorithm where "AlgorithmSHA512 = 2"

definition int_range :: "int \<Rightarrow> bool" where
  "int_range x \<longleftrightarrow> - (2 ^ 63) \<le> x \<and> x < 2 ^ 63"

record Config =
  Secret :: string
  Digits :: int
  Algorithm :: Algorithm
  Period :: int
  Counter :: uint64
  Issuer :: string
  AccountName :: string

text \<open>
  The package's error values, \<open>base32.CorruptInputError\<close>, an error wrapped by
  \<open>fmt.Errorf("...: %w", err)\<close> (the message before the colon is kept), an error made by
  \<open>fmt.Errorf\<close> without wrapping, and the run-time panics the code can reach.
\<close>

datatype error =
    ErrInvalidDigits
  | ErrInvalidSecret
  | ErrMissingSecret
  | ErrMissingAccountName
  | ErrInvalidAlgorithm
  | ErrInvalidPeriod
  | ErrInvalidCounter
  | CorruptInputError
  | Wrapped string error
  | Errorf string
  | PanicDivideByZero
  | PanicOutOfRange

definition DefaultConfig :: Config where
  "DefaultConfig =
     \<lparr>Secret = [], Digits = 6, Algorithm = AlgorithmSHA1, Period = 30, Counter = 0,
      Issuer = [], AccountName = []\<rparr>"

definition NewHOTP :: "string \<Rightarrow> string \<Rightarrow> string \<Rightarrow> int \<Rightarrow> uint64 \<Rightarrow> Config" where
  "NewHOTP secret issuer accountName digits counter =
     \<lparr>Secret = secret, Digits = digits, Algorithm = AlgorithmSHA1, Period = 0,
      Counter = counter, Issuer = issuer, AccountName = accountName\<rparr>"

definition NewTOTP :: "string \<Rightarrow> string \<Rightarrow> string \<Rightarrow> int \<Rightarrow> int \<Rightarrow> Config" where
  "NewTOTP secret issuer accountName digits period =
     \<lparr>Secret = secret, Digits = digits, Algorithm = AlgorithmSHA1, Period = period,
      Counter = 0, Issuer = issuer, AccountName = accountName\<rparr>"

text \<open>
  Methods on \<open>*Config\<close> that assign to a field return the configuration they leave behind.
\<close>

definition IncrementCounter :: "Config \<Rightarrow> uint64 \<times> Config" where
  "IncrementCounter c = (Counter c + 1, c\<lparr>Counter := Counter c + 1\<rparr>)"

definition SetCounter :: "uint64 \<Rightarrow> Config \<Rightarrow> Config" where
  "SetCounter counter c = c\<lparr>Counter := counter\<rparr>"

text \<open>\<open>getHash\<close>: the hash constructor, given here with its block size.\<close>

definition getHash :: "Config \<Rightarrow> (byte list \<Rightarrow> byte list) \<times> nat" where
  "getHash c =
     (if Algorithm c = AlgorithmSHA256 then (sha256, 64)
      else if Algorithm c = AlgorithmSHA512 then (sha512, 128)
      else (sha1, 64))"

section \<open>Decoding the secret\<close>

text \<open>
  \<open>base32.StdEncoding.DecodeString\<close> of the standard library: carriage returns and line
  feeds are dropped, the input is read in quanta of eight characters of the alphabet
  \<open>A\<close>..\<open>Z\<close>, \<open>2\<close>..\<open>7\<close>, and \<open>=\<close> padding is accepted in the last quantum only, in
  the lengths RFC 4648 allows. The offset carried by \<open>CorruptInputError\<close> is left out.
\<close>

definition b32_decodeMap :: "char \<Rightarrow> byte option" where
  "b32_decodeMap ch =
     map_of (zip ''ABCDEFGHIJKLMNOPQRSTUVWXYZ234567''
       [0, 1, 2, 3, 4, 5, 6, 7, 8, 9, 10, 11, 12, 13, 14, 15, 16, 17, 18, 19, 20, 21, 22, 23,
        24, 25, 26, 27, 28, 29, 30, 31]) ch"

text \<open>
  One quantum: \<open>j\<close> characters are decoded into \<open>dbuf\<close> so far. The result is the decoded
  values, the input left, and whether padding ended the data.
\<close>

fun b32_quantum :: "nat \<Rightarrow> byte list \<Rightarrow> string \<Rightarrow> error + (byte list \<times> string \<times> bool)" where
  "b32_quantum j dbuf [] = (if j = 8 then Inr (dbuf, [], False) else Inl CorruptInputError)"
| "b32_quantum j dbuf (ch # src) =
     (if j = 8 then Inr (dbuf, ch # src, False)
      else if ch = CHR ''='' \<and> 2 \<le> j \<and> length src < 8 then
        (if length src + j < 7 then Inl CorruptInputError
         else if \<not> list_all (\<lambda>x. x = CHR ''='') (take (7 - j) src) then Inl CorruptInputError
         else if j = 1 \<or> j = 3 \<or> j = 6 then Inl CorruptInputError
         else Inr (dbuf, src, True))
      else
        (case b32_decodeMap ch of
           None \<Rightarrow> Inl CorruptInputError
         | Some v \<Rightarrow> b32_quantum (j + 1) (dbuf @ [v]) src))"

text \<open>Packing eight 5-bit values into five bytes; \<open>dlen\<close> values give fewer bytes.\<close>

definition b32_pack :: "byte list \<Rightarrow> byte list" where
  "b32_pack dbuf =
     (let d = (\<lambda>i. if i < length dbuf then dbuf ! i else 0);
          n = (if length dbuf = 8 then 5 else if length dbuf = 7 then 4
               else if length dbuf = 5 then 3 else if length dbuf = 4 then 2
               else if length dbuf = 2 then 1 else 0)
      in take n
          [(push_bit 3 (d 0)) OR (drop_bit 2 (d 1)),
           (push_bit 6 (d 1)) OR ((push_bit 1 (d 2)) OR (drop_bit 4 (d 3))),
           (push_bit 4 (d 3)) OR (drop_bit 1 (d 4)),
           (push_bit 7 (d 4)) OR ((push_bit 2 (d 5)) OR (drop_bit 3 (d 6))),
           (push_bit 5 (d 6)) OR (d 7)])"

text \<open>The decoding loop; the fuel bounds the number of quanta by the input length.\<close>

fun b32_decode_loop :: "nat \<Rightarrow> string \<Rightarrow> error + byte list" where
  "b32_decode_loop 0 src = (if src = [] then Inr [] else Inl CorruptInputError)"
| "b32_decode_loop (Suc fuel) src =
     (if src = [] then Inr []
      else case b32_quantum 0 [] src of
        Inl err \<Rightarrow> Inl err
      | Inr (dbuf, rest, ended) \<Rightarrow>
          if ended then Inr (b32_pack dbuf)
          else (case b32_decode_loop fuel rest of
                  Inl err \<Rightarrow> Inl err
                | Inr bs \<Rightarrow> Inr (b32_pack dbuf @ bs)))"

definition DecodeString :: "string \<Rightarrow> error + byte list" where
  "DecodeString s =
     (let src = filter (\<lambda>x. x \<noteq> CHR 0x0D \<and> x \<noteq> CHR 0x0A) s
      in b32_decode_loop (length src) src)"

text \<open>
  \<open>decodeSecret\<close>: spaces removed, upper-cased by \<open>strings.ToUpper\<close>, decoded. It reads
  \<open>c.Secret\<close> only.
\<close>

definition decodeSecret :: "(string \<Rightarrow> string) \<Rightarrow> Config \<Rightarrow> error + byte list" where
  "decodeSecret upper c = DecodeString (upper (remove_char (CHR '' '') (Secret c)))"

definition ValidateSecret :: "(string \<Rightarrow> string) \<Rightarrow> string \<Rightarrow> error option" where
  "ValidateSecret upper secret =
     (case DecodeString (upper (remove_char (CHR '' '') secret)) of
        Inl err \<Rightarrow> Some (Wrapped ''invalid base32 secret'' err)
      | Inr bs \<Rightarrow> None)"

section \<open>Deriving a code\<close>

text \<open>
  \<open>uint32(math.Pow10(d))\<close>. For \<open>d\<close> from 1 to 9 the power fits and the conversion is
  exact. \<open>math.Pow10(10)\<close> is the float \<open>1e10\<close>, which no \<open>uint32\<close> holds; the compiler
  for 64-bit x86 converts through a 64-bit integer and keeps the low 32 bits, so the
  result is \<open>10 ^ 10 mod 2 ^ 32 = 1410065408\<close>, which \<open>word_of_int\<close> gives.
\<close>

definition pow10_uint32 :: "int \<Rightarrow> uint32" where
  "pow10_uint32 d = word_of_int (10 ^ nat d)"

text \<open>
  The dynamic truncation of \<open>generateOTP\<close>: the low nibble of the last byte is the offset,
  the four bytes from there are read big-endian, and the top bit is cleared.
\<close>

definition truncatedHash :: "byte list \<Rightarrow> uint32" where
  "truncatedHash hash =
     (be_uint32 (take 4 (drop (unat ((last hash) AND 0x0F)) hash))) AND 0x7FFFFFFF"

text \<open>
  \<open>generateOTP\<close>. The indexing \<open>hash[len(hash)-1]\<close>, the slice \<open>hash[offset:offset+4]\<close>
  and the remainder are the places where the Go code would panic; each is a branch.
  The method reads \<open>c.Digits\<close>, \<open>c.Secret\<close> and \<open>c.Algorithm\<close> and assigns to no field.
\<close>

definition generateOTP :: "(string \<Rightarrow> string) \<Rightarrow> Config \<Rightarrow> uint64 \<Rightarrow> error + string" where
  "generateOTP upper c counter =
     (if Digits c \<le> 0 \<or> Digits c > 10 then Inl ErrInvalidDigits
      else case decodeSecret upper c of
        Inl err \<Rightarrow> Inl (Wrapped ''failed to decode secret'' err)
      | Inr secretBytes \<Rightarrow>
          (let counterBytes = be_bytes64 counter;
               hash = hmac (getHash c) secretBytes counterBytes
           in if hash = [] \<or> length hash < unat ((last hash) AND 0x0F) + 4 then Inl PanicOutOfRange
              else if pow10_uint32 (Digits c) = 0 then Inl PanicDivideByZero
              else Inr (sprintf_0d (Digits c)
                     (unat (truncatedHash hash mod pow10_uint32 (Digits c))))))"

section \<open>HOTP\<close>

definition GenerateHOTP ::
  "(string \<Rightarrow> string) \<Rightarrow> Config \<Rightarrow> (error + string) \<times> Config" where
  "GenerateHOTP upper c = (generateOTP upper c (Counter c), c)"

definition GenerateHOTPAt ::
  "(string \<Rightarrow> string) \<Rightarrow> uint64 \<Rightarrow> Config \<Rightarrow> (error + string) \<times> Config" where
  "GenerateHOTPAt upper counter c = (generateOTP upper c counter, c)"

text \<open>
  The loop of \<open>ValidateHOTP\<close>, \<open>for i := 0; i <= windowSize; i++\<close>, from the index \<open>i\<close>
  on. The counter is \<open>c.Counter + uint64(i)\<close>, a sum of 64-bit words. A failed
  derivation returns \<open>(false, 0, err)\<close>, a match \<open>(true, counter, nil)\<close>, and the end of
  the loop \<open>(false, 0, nil)\<close>. The index is an \<open>int\<close>, here an integer: this is the loop
  for a \<open>windowSize\<close> below the largest \<open>int\<close>, which \<open>i++\<close> passes without overflow.
\<close>

function hotp_loop ::
  "(string \<Rightarrow> string) \<Rightarrow> Config \<Rightarrow> string \<Rightarrow> int \<Rightarrow> int \<Rightarrow> error + (bool \<times> uint64)" where
  "hotp_loop upper c code windowSize i =
     (if i \<le> windowSize then
        (case generateOTP upper c (Counter c + word_of_int i) of
           Inl err \<Rightarrow> Inl err
         | Inr expectedCode \<Rightarrow>
             if code = expectedCode then Inr (True, Counter c + word_of_int i)
             else hotp_loop upper c code windowSize (i + 1))
      else Inr (False, 0))"
  by pat_completeness auto
termination
  by (relation "measure (\<lambda>(upper, c, code, windowSize, i). nat (windowSize + 1 - i))") auto

declare hotp_loop.simps [simp del]

definition ValidateHOTP ::
  "(string \<Rightarrow> string) \<Rightarrow> string \<Rightarrow> int \<Rightarrow> Config \<Rightarrow> (error + (bool \<times> uint64)) \<times> Config" where
  "ValidateHOTP upper code windowSize c =
     (hotp_loop upper c code (if windowSize < 0 then 10 else windowSize) 0, c)"

section \<open>TOTP\<close>

text \<open>
  A \<open>time.Time\<close> is the number of nanoseconds since the Unix epoch. \<open>t.Unix()\<close> is the
  number of whole seconds, \<open>time.Unix(sec, 0)\<close> the time at a second, and \<open>t.Add(d)\<close>
  adds a duration in nanoseconds.
\<close>

type_synonym Time = int

definition Unix :: "Time \<Rightarrow> int" where
  "Unix t = t div 1000000000"

definition time_Unix :: "int \<Rightarrow> Time" where
  "time_Unix sec = sec * 1000000000"

text \<open>
  \<open>GenerateTOTPAt\<close> writes the default period into the configuration before it divides.
  Both operands of the division are converted to \<open>uint64\<close>.
\<close>

definition GenerateTOTPAt ::
  "(string \<Rightarrow> string) \<Rightarrow> Time \<Rightarrow> Config \<Rightarrow> (error + string) \<times> Config" where
  "GenerateTOTPAt upper t c =
     (let c1 = (if Period c \<le> 0 then c\<lparr>Period := 30\<rparr> else c)
      in if (word_of_int (Period c1) :: uint64) = 0 then (Inl PanicDivideByZero, c1)
         else (generateOTP upper c1 (word_of_int (Unix t) div word_of_int (Period c1)), c1))"

text \<open>
  The loop of \<open>ValidateTOTPAt\<close>, \<open>for i := -windowSize; i <= windowSize; i++\<close>, from the
  index \<open>i\<close> on; the counter is \<open>currentCounter + uint64(i)\<close>. As for \<open>ValidateHOTP\<close>, this
  is the loop for a \<open>windowSize\<close> below the largest \<open>int\<close>.
\<close>

function totp_loop ::
  "(string \<Rightarrow> string) \<Rightarrow> Config \<Rightarrow> string \<Rightarrow> uint64 \<Rightarrow> int \<Rightarrow> int \<Rightarrow> error + bool" where
  "totp_loop upper c code currentCounter windowSize i =
     (if i \<le> windowSize then
        (case generateOTP upper c (currentCounter + word_of_int i) of
           Inl err \<Rightarrow> Inl err
         | Inr expectedCode \<Rightarrow>
             if code = expectedCode then Inr True
             else totp_loop upper c code currentCounter windowSize (i + 1))
      else Inr False)"
  by pat_completeness auto
termination
  by (relation
      "measure (\<lambda>(upper, c, code, currentCounter, windowSize, i). nat (windowSize + 1 - i))")
    auto

declare totp_loop.simps [simp del]

text \<open>
  \<open>ValidateTOTPAt\<close> divides by \<open>uint64(c.Period)\<close> as it finds it: there is no default
  here, and a zero divisor is a run-time panic.
\<close>

definition ValidateTOTPAt ::
  "(string \<Rightarrow> string) \<Rightarrow> string \<Rightarrow> Time \<Rightarrow> int \<Rightarrow> Config \<Rightarrow> (error + bool) \<times> Config" where
  "ValidateTOTPAt upper code t windowSize c =
     (let w = (if windowSize < 0 then 1 else windowSize)
      in if (word_of_int (Period c) :: uint64) = 0 then (Inl PanicDivideByZero, c)
         else (totp_loop upper c code (word_of_int (Unix t) div word_of_int (Period c)) w (- w), c))"

section \<open>Batch generation\<close>

text \<open>Go's integer division rounds towards zero.\<close>

definition quot :: "int \<Rightarrow> int \<Rightarrow> int" where
  "quot a b = sgn a * sgn b * (\<bar>a\<bar> div \<bar>b\<bar>)"

text \<open>
  \<open>strconv.Itoa\<close>, and a \<open>time.Duration\<close>: a number of nanoseconds in an \<open>int64\<close>, whose
  arithmetic wraps around. \<open>seconds n\<close> is \<open>time.Duration(n) * time.Second\<close> for an \<open>int\<close>
  product \<open>n\<close>.
\<close>

definition Itoa :: "int \<Rightarrow> string" where
  "Itoa i = (if i < 0 then CHR ''-'' # decimal (nat (- i)) else decimal (nat i))"

definition int64_wrap :: "int \<Rightarrow> int" where
  "int64_wrap x = sint (word_of_int x :: 64 word)"

definition seconds :: "int \<Rightarrow> int" where
  "seconds n = int64_wrap (int64_wrap n * 1000000000)"

record TOTPEntry =
  Code :: string
  ValidFrom :: Time
  ValidTo :: Time
  IsCurrent :: bool

text \<open>
  \<open>time.Now()\<close> is an input: \<open>GetCurrentTOTPWindow\<close> takes the reading of the clock it
  makes. Like \<open>GenerateTOTPAt\<close> it writes the default period into the configuration. The
  two products are products of \<open>int64\<close> values, which wrap around.
\<close>

definition GetCurrentTOTPWindow :: "Time \<Rightarrow> Config \<Rightarrow> (Time \<times> Time) \<times> Config" where
  "GetCurrentTOTPWindow now c =
     (let c1 = (if Period c \<le> 0 then c\<lparr>Period := 30\<rparr> else c);
          currentPeriod = quot (Unix now) (Period c1)
      in ((time_Unix (int64_wrap (currentPeriod * Period c1)),
           time_Unix (int64_wrap ((currentPeriod + 1) * Period c1))),
          c1))"

text \<open>
  The loop of \<open>GenerateTOTPBatch\<close>, \<open>for i := 0; i < windowCount; i++\<close>, from the index \<open>i\<close>
  on. \<open>clock k\<close> is the \<open>k\<close>-th reading of \<open>time.Now()\<close> during the call: reading 0 is
  \<open>baseTime\<close>, and the iteration \<open>i\<close> makes reading \<open>i + 1\<close> in \<open>GetCurrentTOTPWindow\<close>. The
  entries assigned to \<open>entries[0]\<close>, ..., \<open>entries[i - 1]\<close> are \<open>entries\<close>; the configuration
  is passed on from call to call.
\<close>

function batch_loop ::
  "(string \<Rightarrow> string) \<Rightarrow> (nat \<Rightarrow> Time) \<Rightarrow> Time \<Rightarrow> int \<Rightarrow> int \<Rightarrow> TOTPEntry list
     \<Rightarrow> Config \<Rightarrow> (error + TOTPEntry list) \<times> Config" where
  "batch_loop upper clock baseTime windowCount i entries c =
     (if i < windowCount then
        (let offset = i - quot windowCount 2;
             targetTime = baseTime + seconds (offset * Period c)
         in case GenerateTOTPAt upper targetTime c of
              (Inl err, c1) \<Rightarrow>
                (Inl (Wrapped (''failed to generate TOTP for window '' @ Itoa i) err), c1)
            | (Inr code, c1) \<Rightarrow>
                (case GetCurrentTOTPWindow (clock (nat i + 1)) c1 of
                   ((start, end), c2) \<Rightarrow>
                     batch_loop upper clock baseTime windowCount (i + 1)
                       (entries @
                          [\<lparr>Code = code,
                            ValidFrom = (if offset \<noteq> 0 then start + seconds (offset * Period c2)
                                         else start),
                            ValidTo = (if offset \<noteq> 0 then end + seconds (offset * Period c2)
                                       else end),
                            IsCurrent = (offset = 0)\<rparr>])
                       c2))
      else (Inr entries, c))"
  by pat_completeness auto
termination
  by (relation
      "measure (\<lambda>(upper, clock, baseTime, windowCount, i, entries, c). nat (windowCount - i))")
    auto

declare batch_loop.simps [simp del]

definition GenerateTOTPBatch ::
  "(string \<Rightarrow> string) \<Rightarrow> int \<Rightarrow> (nat \<Rightarrow> Time) \<Rightarrow> Config \<Rightarrow> (error + TOTPEntry list) \<times> Config" where
  "GenerateTOTPBatch upper windowCount clock c =
     batch_loop upper clock (clock 0) (if windowCount \<le> 0 then 3 else windowCount) 0 [] c"

section \<open>The window of a validation, as the specification words it\<close>




text \<open>
  Batch generation, in the words of the specification: for a current step \<open>s\<close>, the entry
  of index \<open>i\<close> belongs to the step \<open>s + (i - n div 2)\<close>; it carries the code derived for
  that step and the interval of that step, and is current when its offset is 0.
\<close>

definition derived_code :: "(string \<Rightarrow> string) \<Rightarrow> Config \<Rightarrow> uint64 \<Rightarrow> string" where
  "derived_code upper c k = (case generateOTP upper c k of Inr s \<Rightarrow> s | Inl err \<Rightarrow> [])"

definition batch_entry ::
  "(string \<Rightarrow> string) \<Rightarrow> Config \<Rightarrow> int \<Rightarrow> int \<Rightarrow> int \<Rightarrow> TOTPEntry" where
  "batch_entry upper c n s i =
     \<lparr>Code = derived_code upper c (word_of_int (s + (i - n div 2))),
      ValidFrom = time_Unix ((s + (i - n div 2)) * Period c),
      ValidTo = time_Unix ((s + (i - n div 2) + 1) * Period c),
      IsCurrent = (i = n div 2)\<rparr>"

section \<open>A configuration to compute with\<close>

text \<open>
  The secret of the test vectors of RFC 4226, the ASCII bytes of \<open>12345678901234567890\<close>,
  in base32.
\<close>

definition rfc4226_secret :: string where
  "rfc4226_secret = ''GEZDGNBVGY3TQOJQGEZDGNBVGY3TQOJQ''"

definition rfc4226_key :: "byte list" where
  "rfc4226_key = [49, 50, 51, 52, 53, 54, 55, 56, 57, 48, 49, 50, 51, 52, 53, 54, 55, 56, 57, 48]"

definition rfc4226_config :: "int \<Rightarrow> uint64 \<Rightarrow> Config" where
  "rfc4226_config digits counter = NewHOTP rfc4226_secret [] ''alice'' digits counter"

definition rfc4226_totp :: Config where
  "rfc4226_totp = NewTOTP rfc4226_secret [] ''alice'' 6 30"

text \<open>
  Clocks to compute with: one that gives the same reading whenever it is read, and one that
  advances by a fixed duration from one reading to the next.
\<close>

definition clock_at :: "Time \<Rightarrow> nat \<Rightarrow> Time" where
  "clock_at t k = t"

definition clock_from :: "Time \<Rightarrow> Time \<Rightarrow> nat \<Rightarrow> Time" where
  "clock_from t d k = t + int k * d"

section \<open>The interchange URL\<close>

subsection \<open>Strings and numbers\<close>

text \<open>
  \<open>strings.Cut(s, sep)\<close> for a separator of one byte: the parts before and after its first
  occurrence, or all of \<open>s\<close> and the empty string when there is none. \<open>strings.TrimPrefix\<close>
  and \<open>strings.Join\<close> are as in the library.
\<close>

definition Cut :: "char \<Rightarrow> string \<Rightarrow> string \<times> string" where
  "Cut sep s = (takeWhile (\<lambda>x. x \<noteq> sep) s, drop 1 (dropWhile (\<lambda>x. x \<noteq> sep) s))"

definition TrimPrefix :: "string \<Rightarrow> string \<Rightarrow> string" where
  "TrimPrefix s prefix = (if take (length prefix) s = prefix then drop (length prefix) s else s)"

fun Join :: "string list \<Rightarrow> string \<Rightarrow> string" where
  "Join [] sep = []"
| "Join [x] sep = x"
| "Join (x # y # ys) sep = x @ sep @ Join (y # ys) sep"

text \<open>
  \<open>strconv.Atoi\<close> and \<open>strconv.ParseUint(s, 10, 64)\<close>: an optional sign for \<open>Atoi\<close>, none
  for \<open>ParseUint\<close>, then one decimal digit or more, and a value in the range of the type;
  anything else is an error, here \<open>None\<close>. \<open>strconv.FormatUint(n, 10)\<close> is the decimal
  notation.
\<close>

definition is_digit :: "char \<Rightarrow> bool" where
  "is_digit ch \<longleftrightarrow> ch \<in> set ''0123456789''"

definition is_letter :: "char \<Rightarrow> bool" where
  "is_letter ch \<longleftrightarrow> ch \<in> set ''abcdefghijklmnopqrstuvwxyzABCDEFGHIJKLMNOPQRSTUVWXYZ''"

definition digit_val :: "char \<Rightarrow> nat" where
  "digit_val ch =
     (case map_of (zip ''0123456789'' [0, 1, 2, 3, 4, 5, 6, 7, 8, 9]) ch of
        Some d \<Rightarrow> d
      | None \<Rightarrow> 0)"

definition digits_val :: "string \<Rightarrow> nat" where
  "digits_val s = foldl (\<lambda>acc ch. 10 * acc + digit_val ch) 0 s"

definition ParseUint :: "string \<Rightarrow> uint64 option" where
  "ParseUint s =
     (if s = [] \<or> \<not> list_all is_digit s then None
      else if 2 ^ 64 \<le> digits_val s then None
      else Some (of_nat (digits_val s)))"

definition Atoi :: "string \<Rightarrow> int option" where
  "Atoi s =
     (let neg = (s \<noteq> [] \<and> hd s = CHR ''-'');
          ds = (if s \<noteq> [] \<and> (hd s = CHR ''-'' \<or> hd s = CHR ''+'') then tl s else s)
      in if ds = [] \<or> \<not> list_all is_digit ds then None
         else if neg then (if 2 ^ 63 < digits_val ds then None else Some (- int (digits_val ds)))
         else (if 2 ^ 63 \<le> digits_val ds then None else Some (int (digits_val ds))))"

definition FormatUint :: "uint64 \<Rightarrow> string" where
  "FormatUint n = decimal (unat n)"

text \<open>\<open>Algorithm.String\<close>: a value that is none of the three constants prints as \<open>SHA1\<close>.\<close>

definition Algorithm_String :: "Algorithm \<Rightarrow> string" where
  "Algorithm_String a =
     (if a = AlgorithmSHA1 then ''SHA1''
      else if a = AlgorithmSHA256 then ''SHA256''
      else if a = AlgorithmSHA512 then ''SHA512''
      else ''SHA1'')"

subsection \<open>Escaping\<close>

text \<open>
  \<open>url.QueryEscape\<close>: letters, digits and \<open>-_.~\<close> are kept, a space becomes \<open>+\<close>, and every
  other byte becomes \<open>%\<close> and two upper-case hexadecimal digits.
\<close>

definition unreserved :: "char \<Rightarrow> bool" where
  "unreserved ch \<longleftrightarrow> is_letter ch \<or> is_digit ch \<or> ch \<in> set ''-_.~''"

definition upperhex :: "nat \<Rightarrow> char" where
  "upperhex d = ''0123456789ABCDEF'' ! d"

definition escape_char :: "char \<Rightarrow> string" where
  "escape_char ch =
     (if ch = CHR '' '' then ''+''
      else if unreserved ch then [ch]
      else [CHR ''%'', upperhex (of_char ch div 16), upperhex (of_char ch mod 16)])"

definition QueryEscape :: "string \<Rightarrow> string" where
  "QueryEscape s = concat (map escape_char s)"

text \<open>
  The \<open>unescape\<close> of \<open>net/url\<close> in two of its modes: for a query component
  (\<open>url.QueryUnescape\<close>), where \<open>+\<close> is a space, and for a path, where \<open>+\<close> is itself.
  A \<open>%\<close> that two hexadecimal digits do not follow is an error, here \<open>None\<close>.
\<close>

definition unhex :: "char \<Rightarrow> nat option" where
  "unhex ch =
     map_of (zip ''0123456789abcdefABCDEF''
       [0, 1, 2, 3, 4, 5, 6, 7, 8, 9, 10, 11, 12, 13, 14, 15, 10, 11, 12, 13, 14, 15]) ch"

fun unescape :: "bool \<Rightarrow> string \<Rightarrow> string option" where
  "unescape q [] = Some []"
| "unescape q (ch # s) =
     (if ch = CHR ''%'' then
        (case s of
           h1 # h2 # rest \<Rightarrow>
             (case (unhex h1, unhex h2) of
                (Some a, Some b) \<Rightarrow> map_option ((#) (char_of (16 * a + b))) (unescape q rest)
              | _ \<Rightarrow> None)
         | _ \<Rightarrow> None)
      else if ch = CHR ''+'' \<and> q then map_option ((#) (CHR '' '')) (unescape q s)
      else map_option ((#) ch) (unescape q s))"

subsection \<open>Query parameters\<close>

text \<open>
  A \<open>url.Values\<close> that holds one value for each key, as \<open>Set\<close> leaves it, is a list of pairs
  with distinct keys. \<open>Encode\<close> writes the pairs sorted by key, in the byte order of Go
  strings, key and value escaped.
\<close>

type_synonym Values = "(string \<times> string) list"

definition Values_Set :: "string \<Rightarrow> string \<Rightarrow> Values \<Rightarrow> Values" where
  "Values_Set k v m = (k, v) # filter (\<lambda>p. fst p \<noteq> k) m"

fun string_le :: "string \<Rightarrow> string \<Rightarrow> bool" where
  "string_le [] ys = True"
| "string_le (x # xs) [] = False"
| "string_le (x # xs) (y # ys) =
     ((of_char x :: nat) < of_char y \<or> (x = y \<and> string_le xs ys))"

fun insert_key :: "string \<times> string \<Rightarrow> Values \<Rightarrow> Values" where
  "insert_key p [] = [p]"
| "insert_key p (r # rs) =
     (if string_le (fst p) (fst r) then p # r # rs else r # insert_key p rs)"

definition sort_keys :: "Values \<Rightarrow> Values" where
  "sort_keys m = foldr insert_key m []"

definition Encode :: "Values \<Rightarrow> string" where
  "Encode m = Join (map (\<lambda>(k, v). QueryEscape k @ ''='' @ QueryEscape v) (sort_keys m)) ''&''"

text \<open>
  \<open>u.Query()\<close>, that is \<open>url.ParseQuery\<close> with its error dropped: the query is cut at every
  \<open>&\<close>; a piece that holds a semicolon, an empty piece, and a piece whose key or value does
  not unescape are skipped; the others are cut at their first \<open>=\<close>. The pairs are kept in
  the order of the query, and \<open>Get\<close> returns the first value of a key, or the empty string.
\<close>

definition parse_pair :: "string \<Rightarrow> (string \<times> string) option" where
  "parse_pair piece =
     (if CHR '';'' \<in> set piece \<or> piece = [] then None
      else case (unescape True (fst (Cut (CHR ''='') piece)),
                 unescape True (snd (Cut (CHR ''='') piece))) of
             (Some k, Some v) \<Rightarrow> Some (k, v)
           | _ \<Rightarrow> None)"

function ParseQuery :: "string \<Rightarrow> Values" where
  "ParseQuery query =
     (if query = [] then []
      else case parse_pair (fst (Cut (CHR ''&'') query)) of
             None \<Rightarrow> ParseQuery (snd (Cut (CHR ''&'') query))
           | Some kv \<Rightarrow> kv # ParseQuery (snd (Cut (CHR ''&'') query)))"
  by pat_completeness auto
termination
proof -
  have less: "(snd (Cut (CHR ''&'') q), q) \<in> measure length" if "q \<noteq> []" for q :: string
    using that length_dropWhile_le [of "\<lambda>x. x \<noteq> CHR ''&''" q]
    by (cases q) (simp_all add: Cut_def)
  show ?thesis
    by (relation "measure length") (auto intro: less simp del: in_measure)
qed

declare ParseQuery.simps [simp del]

definition Values_Get :: "Values \<Rightarrow> string \<Rightarrow> string" where
  "Values_Get m k = (case map_of m k of Some v \<Rightarrow> v | None \<Rightarrow> [])"

subsection \<open>Parsing a URL\<close>

text \<open>
  \<open>url.Parse\<close> of the standard library, for what \<open>ParseOTPAuthURL\<close> reads of its result:
  scheme, host, path and raw query. The fragment is cut off at the first \<open>#\<close> and must
  unescape; control characters are refused; the scheme is read up to the first colon and
  lower-cased; the query is what follows the first question mark; a URL with a scheme
  whose rest does not start with a slash is opaque, and one without a scheme may not have a
  colon in its first segment; after \<open>//\<close> the authority runs up to the next slash; the path
  is unescaped as a path.

  The authority holds user information, host and port, which \<open>parseAuthority\<close> of the
  library checks and takes apart. That function is not written out: \<open>url_Parse\<close> takes it as
  its argument \<open>authority\<close>, which returns the host or an error.
\<close>

record URL =
  Scheme :: string
  Host :: string
  Path :: string
  RawQuery :: string

fun getScheme_from :: "string \<Rightarrow> string \<Rightarrow> string \<Rightarrow> error + (string \<times> string)" where
  "getScheme_from rawURL acc [] = Inr ([], rawURL)"
| "getScheme_from rawURL acc (ch # rest) =
     (if is_letter ch then getScheme_from rawURL (acc @ [ch]) rest
      else if is_digit ch \<or> ch \<in> set ''+-.'' then
        (if acc = [] then Inr ([], rawURL) else getScheme_from rawURL (acc @ [ch]) rest)
      else if ch = CHR '':'' then
        (if acc = [] then Inl (Errorf ''missing protocol scheme'') else Inr (acc, rest))
      else Inr ([], rawURL))"

definition getScheme :: "string \<Rightarrow> error + (string \<times> string)" where
  "getScheme rawURL = getScheme_from rawURL [] rawURL"

definition to_lower_char :: "char \<Rightarrow> char" where
  "to_lower_char ch =
     (case map_of (zip ''ABCDEFGHIJKLMNOPQRSTUVWXYZ'' ''abcdefghijklmnopqrstuvwxyz'') ch of
        Some l \<Rightarrow> l
      | None \<Rightarrow> ch)"

definition is_ctl :: "char \<Rightarrow> bool" where
  "is_ctl ch \<longleftrightarrow> (of_char ch :: nat) < 32 \<or> (of_char ch :: nat) = 127"

definition setPath :: "string \<Rightarrow> string \<Rightarrow> string \<Rightarrow> string \<Rightarrow> error + URL" where
  "setPath scheme host rawQuery p =
     (case unescape False p of
        None \<Rightarrow> Inl (Errorf ''invalid URL escape'')
      | Some path \<Rightarrow> Inr \<lparr>Scheme = scheme, Host = host, Path = path, RawQuery = rawQuery\<rparr>)"

definition url_Parse :: "(string \<Rightarrow> error + string) \<Rightarrow> string \<Rightarrow> error + URL" where
  "url_Parse authority rawURL =
     (let u = fst (Cut (CHR ''#'') rawURL);
          frag = snd (Cut (CHR ''#'') rawURL)
      in if list_ex is_ctl u then Inl (Errorf ''invalid control character in URL'')
         else case getScheme u of
           Inl err \<Rightarrow> Inl err
         | Inr (scheme0, rest0) \<Rightarrow>
             (let scheme = map to_lower_char scheme0;
                  rest = fst (Cut (CHR ''?'') rest0);
                  rawQuery = snd (Cut (CHR ''?'') rest0);
                  parsed =
                    (if take 1 rest \<noteq> ''/'' \<and> scheme \<noteq> [] then
                       Inr \<lparr>Scheme = scheme, Host = [], Path = [], RawQuery = rawQuery\<rparr>
                     else if take 1 rest \<noteq> ''/'' \<and> u \<noteq> ''*''
                         \<and> CHR '':'' \<in> set (fst (Cut (CHR ''/'') rest)) then
                       Inl (Errorf ''first path segment in URL cannot contain colon'')
                     else if take 2 rest = ''//'' \<and> (scheme \<noteq> [] \<or> take 3 rest \<noteq> ''///'') then
                       (case authority (takeWhile (\<lambda>x. x \<noteq> CHR ''/'') (drop 2 rest)) of
                          Inl err \<Rightarrow> Inl err
                        | Inr host \<Rightarrow>
                            setPath scheme host rawQuery
                              (dropWhile (\<lambda>x. x \<noteq> CHR ''/'') (drop 2 rest)))
                     else setPath scheme [] rawQuery rest)
              in case parsed of
                   Inl err \<Rightarrow> Inl err
                 | Inr url \<Rightarrow>
                     if unescape False frag = None then Inl (Errorf ''invalid URL escape'')
                     else Inr url))"

subsection \<open>Writing and reading the URL\<close>

text \<open>
  \<open>OTPAuthURL\<close>. A positive period makes a \<open>totp\<close> URL with the period, any other period a
  \<open>hotp\<close> URL with the counter. The label is escaped with \<open>url.QueryEscape\<close>.
\<close>

definition OTPAuthURL :: "Config \<Rightarrow> error + string" where
  "OTPAuthURL c =
     (if Secret c = [] then Inl ErrMissingSecret
      else if AccountName c = [] then Inl ErrMissingAccountName
      else
        (let params0 = Values_Set ''algorithm'' (Algorithm_String (Algorithm c))
                         (Values_Set ''digits'' (Itoa (Digits c))
                            (Values_Set ''secret'' (Secret c) []));
             otpType = (if Period c > 0 then ''totp'' else ''hotp'');
             params1 = (if Period c > 0 then Values_Set ''period'' (Itoa (Period c)) params0
                        else Values_Set ''counter'' (FormatUint (Counter c)) params0);
             label = (if Issuer c \<noteq> [] then Issuer c @ '':'' @ AccountName c
                      else AccountName c);
             params = (if Issuer c \<noteq> [] then Values_Set ''issuer'' (Issuer c) params1
                       else params1)
         in Inr (''otpauth://'' @ otpType @ ''/'' @ QueryEscape label @ ''?'' @ Encode params)))"

text \<open>
  \<open>ParseOTPAuthURL\<close>, first the part that reads the query parameters into the
  configuration, in the order of the source: secret, digits, algorithm, period, counter,
  issuer. A parameter that is absent, empty, unreadable or out of range leaves the field
  as it is.
\<close>

definition parse_params :: "(string \<Rightarrow> string) \<Rightarrow> Values \<Rightarrow> Config \<Rightarrow> Config" where
  "parse_params upper params config0 =
     (let config1 = config0\<lparr>Secret := Values_Get params ''secret''\<rparr>;
          config2 =
            (if Values_Get params ''digits'' \<noteq> [] then
               (case Atoi (Values_Get params ''digits'') of
                  Some d \<Rightarrow> if d > 0 \<and> d \<le> 10 then config1\<lparr>Digits := d\<rparr> else config1
                | None \<Rightarrow> config1)
             else config1);
          algorithm = upper (Values_Get params ''algorithm'');
          config3 =
            (if Values_Get params ''algorithm'' \<noteq> [] then
               (if algorithm = ''SHA1'' then config2\<lparr>Algorithm := AlgorithmSHA1\<rparr>
                else if algorithm = ''SHA256'' then config2\<lparr>Algorithm := AlgorithmSHA256\<rparr>
                else if algorithm = ''SHA512'' then config2\<lparr>Algorithm := AlgorithmSHA512\<rparr>
                else config2)
             else config2);
          config4 =
            (if Period config3 > 0 \<and> Values_Get params ''period'' \<noteq> [] then
               (case Atoi (Values_Get params ''period'') of
                  Some p \<Rightarrow> if p > 0 then config3\<lparr>Period := p\<rparr> else config3
                | None \<Rightarrow> config3)
             else config3);
          config5 =
            (if Period config4 = 0 \<and> Values_Get params ''counter'' \<noteq> [] then
               (case ParseUint (Values_Get params ''counter'') of
                  Some n \<Rightarrow> config4\<lparr>Counter := n\<rparr>
                | None \<Rightarrow> config4)
             else config4)
      in if Values_Get params ''issuer'' \<noteq> [] then
           config5\<lparr>Issuer := Values_Get params ''issuer''\<rparr>
         else config5)"

definition ParseOTPAuthURL ::
  "(string \<Rightarrow> string) \<Rightarrow> (string \<Rightarrow> error + string) \<Rightarrow> string \<Rightarrow> error + Config" where
  "ParseOTPAuthURL upper authority otpauthURL =
     (case url_Parse authority otpauthURL of
        Inl err \<Rightarrow> Inl (Wrapped ''invalid URL'' err)
      | Inr u \<Rightarrow>
          if Scheme u \<noteq> ''otpauth'' then
            Inl (Errorf (''invalid scheme: expected otpauth, got '' @ Scheme u))
          else if Host u \<noteq> ''totp'' \<and> Host u \<noteq> ''hotp'' then
            Inl (Errorf (''unsupported OTP type: '' @ Host u))
          else
            (let config0 = DefaultConfig\<lparr>Period := (if Host u = ''totp'' then 30 else 0)\<rparr>;
                 label = TrimPrefix (Path u) ''/''
             in if label = [] then Inl ErrMissingAccountName
                else
                  (let config1 =
                         (if CHR '':'' \<in> set label then
                            config0\<lparr>Issuer := fst (Cut (CHR '':'') label),
                                    AccountName := snd (Cut (CHR '':'') label)\<rparr>
                          else config0\<lparr>AccountName := label\<rparr>);
                       params = ParseQuery (RawQuery u)
                   in if Values_Get params ''secret'' = [] then Inl ErrMissingSecret
                      else Inr (parse_params upper params config1))))"

section \<open>Lengths, bounds and the shape of a code\<close>

lemma length_be_bytes32: "length (be_bytes32 w) = 4"
  by (simp add: be_bytes32_def)

lemma length_be_bytes64: "length (be_bytes64 w) = 8"
  by (simp add: be_bytes64_def)

lemma length_sha1_out: "length (sha1_out s) = 20"
  by (cases s rule: sha1_out.cases) (simp add: length_be_bytes32)

lemma length_sha1: "length (sha1 msg) = 20"
  by (simp add: sha1_def length_sha1_out)

lemma length_sha256_out: "length (sha256_out s) = 32"
  by (cases s rule: sha256_out.cases) (simp add: length_be_bytes32)

lemma length_sha512_out: "length (sha512_out s) = 64"
  by (cases s rule: sha512_out.cases) (simp add: length_be_bytes64)

lemma length_sha256: "length (sha256 msg) = 32"
  by (simp add: sha256_def length_sha256_out)

lemma length_sha512: "length (sha512 msg) = 64"
  by (simp add: sha512_def length_sha512_out)

lemma length_hmac: "20 \<le> length (hmac (getHash c) key msg)"
  by (simp add: hmac_def hmac_sum_def getHash_def length_sha1 length_sha256 length_sha512)

lemma nibble_bound: "unat ((b :: byte) AND 0x0f) < 16"
proof -
  have "unat (b AND 15) \<le> unat (15 :: byte)"
    by (rule word_and_le1 [THEN word_le_nat_alt [THEN iffD1]])
  then show ?thesis by simp
qed

lemma hmac_in_bounds:
  "hmac (getHash c) key msg \<noteq> [] \<and>
   unat ((last (hmac (getHash c) key msg)) AND 0x0f) + 4 \<le> length (hmac (getHash c) key msg)"
  using length_hmac [of c key msg] nibble_bound [of "last (hmac (getHash c) key msg)"]
  by auto

lemma digit_char_in: "d < 10 \<Longrightarrow> digit_char d \<in> set ''0123456789''"
  unfolding digit_char_def by (rule nth_mem) simp

lemma decimal_digits: "set (decimal n) \<subseteq> set ''0123456789''"
proof (induction n rule: decimal.induct)
  case (1 n)
  show ?case
  proof (cases "n < 10")
    case True
    then show ?thesis
      using digit_char_in [of n] by (subst decimal.simps) simp
  next
    case False
    have "n mod 10 < 10" by simp
    then have "digit_char (n mod 10) \<in> set ''0123456789''" by (rule digit_char_in)
    with False 1 show ?thesis
      by (subst decimal.simps) simp
  qed
qed

lemma length_decimal_le: "0 < d \<Longrightarrow> n < 10 ^ d \<Longrightarrow> length (decimal n) \<le> d"
proof (induction d arbitrary: n)
  case 0
  then show ?case by simp
next
  case (Suc d)
  show ?case
  proof (cases "n < 10")
    case True
    then show ?thesis by (subst decimal.simps) simp
  next
    case False
    with Suc.prems have d: "0 < d" by (cases d) auto
    from Suc.prems have "n div 10 < 10 ^ d"
      by (simp add: less_mult_imp_div_less mult.commute)
    with d have "length (decimal (n div 10)) \<le> d" by (rule Suc.IH)
    with False show ?thesis by (subst decimal.simps) simp
  qed
qed

lemma length_sprintf_0d:
  "length (decimal v) \<le> nat width \<Longrightarrow> length (sprintf_0d width v) = nat width"
  by (simp add: sprintf_0d_def)

lemma sprintf_0d_digits: "set (sprintf_0d width v) \<subseteq> set ''0123456789''"
  using decimal_digits [of v] by (auto simp: sprintf_0d_def)

lemma digits_cases:
  assumes "0 < (d::int)" "d \<le> 10"
  obtains "d = 1" | "d = 2" | "d = 3" | "d = 4" | "d = 5" | "d = 6" | "d = 7" | "d = 8"
    | "d = 9" | "d = 10"
proof -
  have "d = 1 \<or> d = 2 \<or> d = 3 \<or> d = 4 \<or> d = 5 \<or> d = 6 \<or> d = 7 \<or> d = 8 \<or> d = 9 \<or> d = 10"
    using assms by arith
  then show thesis
    using that by blast
qed

lemma unat_pow10_uint32:
  assumes "0 < d" "d \<le> 10"
  shows "unat (pow10_uint32 d) = (if d = 10 then 1410065408 else 10 ^ nat d)"
  using assms by (cases d rule: digits_cases) (simp_all add: pow10_uint32_def)

lemma pow10_uint32_nonzero: "0 < d \<Longrightarrow> d \<le> 10 \<Longrightarrow> pow10_uint32 d \<noteq> 0"
proof
  assume d: "0 < d" "d \<le> 10" and z: "pow10_uint32 d = 0"
  have "unat (pow10_uint32 d) \<noteq> 0"
    using unat_pow10_uint32 [OF d] by (simp split: if_splits)
  with z show False by simp
qed

lemma otp_value_bound:
  assumes "0 < d" "d \<le> 10"
  shows "unat (x mod pow10_uint32 d) < 10 ^ nat d"
proof -
  have nz: "0 < unat (pow10_uint32 d)"
    using unat_pow10_uint32 [OF assms] by (simp split: if_splits)
  have "unat (x mod pow10_uint32 d) = unat x mod unat (pow10_uint32 d)"
    by (rule unat_mod)
  also have "\<dots> < unat (pow10_uint32 d)"
    using nz by simp
  also have "\<dots> \<le> 10 ^ nat d"
    using unat_pow10_uint32 [OF assms] by (simp split: if_splits)
  finally show ?thesis .
qed

lemma generateOTP_valid:
  assumes "0 < Digits c" "Digits c \<le> 10" "decodeSecret upper c = Inr key"
  shows "generateOTP upper c counter =
           Inr (sprintf_0d (Digits c)
             (unat (truncatedHash (hmac (getHash c) key (be_bytes64 counter))
                      mod pow10_uint32 (Digits c))))"
  using assms hmac_in_bounds [of c key "be_bytes64 counter"] pow10_uint32_nonzero [of "Digits c"]
  by (simp add: generateOTP_def Let_def)

lemma generateOTP_length:
  assumes "0 < Digits c" "Digits c \<le> 10" "decodeSecret upper c = Inr key"
    and "generateOTP upper c counter = Inr s"
  shows "length s = nat (Digits c) \<and> set s \<subseteq> set ''0123456789''"
proof -
  let ?v = "unat (truncatedHash (hmac (getHash c) key (be_bytes64 counter))
                      mod pow10_uint32 (Digits c))"
  have s: "s = sprintf_0d (Digits c) ?v"
    using generateOTP_valid [OF assms(1-3), of counter] assms(4) by simp
  have "?v < 10 ^ nat (Digits c)"
    using assms(1,2) by (rule otp_value_bound)
  then have "length (decimal ?v) \<le> nat (Digits c)"
    using assms(1) by (intro length_decimal_le) auto
  then show ?thesis
    unfolding s using sprintf_0d_digits by (simp add: length_sprintf_0d)
qed

lemma generateOTP_total:
  assumes "0 < Digits c" "Digits c \<le> 10" "decodeSecret upper c = Inr key"
  shows "\<exists>s. generateOTP upper c counter = Inr s"
  using generateOTP_valid [OF assms] by blast


section \<open>Computing SHA-1 and HMAC on concrete input\<close>

lemma rotl32_eval: "rotl32 n x = take_bit 32 ((push_bit n x) OR (drop_bit (32 - n) x))"
  by (simp add: rotl32_def take_bit_word_eq_self)

lemma sha1_round_eval:
  "sha1_round f k (a, b, c, d, e) w =
     (take_bit 32 (rotl32 5 a + f b c d + e + k + w), a, rotl32 30 b, c, d)"
  by (simp add: take_bit_word_eq_self)

lemma sha1_add_eval:
  "sha1_add (h0, h1, h2, h3, h4) (a, b, c, d, e) =
     (take_bit 32 (h0 + a), take_bit 32 (h1 + b), take_bit 32 (h2 + c), take_bit 32 (h3 + d),
      take_bit 32 (h4 + e))"
  by (simp add: take_bit_word_eq_self)

lemma sha_ch_eval: "sha_ch x y z = take_bit 32 ((x AND y) XOR ((NOT x) AND z))" for x :: uint32
  by (simp add: sha_ch_def take_bit_word_eq_self)

lemma sha1_extend_numeral:
  "sha1_extend (numeral n) r =
     sha1_extend (pred_numeral n)
       (rotl32 1 ((r ! 2) XOR ((r ! 7) XOR ((r ! 13) XOR (r ! 15)))) # r)"
  by (simp add: numeral_eq_Suc)

lemma replicate_numeral_eval: "replicate (numeral n) x = x # replicate (pred_numeral n) x"
  by (simp add: numeral_eq_Suc)

lemma chunks_one: "xs \<noteq> [] \<Longrightarrow> length xs \<le> n \<Longrightarrow> chunks n xs = [xs]"
  by (cases xs) (subst chunks.simps, subst chunks.simps, auto)+

lemma chunks_append: "0 < n \<Longrightarrow> length xs = n \<Longrightarrow> chunks n (xs @ ys) = xs # chunks n ys"
  by (subst chunks.simps) auto

lemma sha1_two_blocks:
  assumes "length b1 = 64" "length m = 64 - 9 - p" "p \<le> 55" 
  shows "sha1 (b1 @ m) =
    sha1_out (sha1_block (sha1_block sha1_init b1)
       (m @ 0x80 # replicate p 0 @ be_bytes64 (of_nat (8 * (64 + length m)))))"
proof -
  have len: "length m = 55 - p" using assms by simp
  have "(64 + length m) mod 64 = length m"
    using len by simp
  then have pad: "(119 - (64 + length m) mod 64) mod 64 = p"
    using len assms(3) by simp
  have "md_pad64 (b1 @ m) = b1 @ (m @ 0x80 # replicate p 0 @ be_bytes64 (of_nat (8 * (64 + length m))))"
    using assms(1) pad by (simp add: md_pad64_def)
  moreover have "chunks 64 (m @ 0x80 # replicate p 0 @ be_bytes64 (of_nat (8 * (64 + length m))))
     = [m @ 0x80 # replicate p 0 @ be_bytes64 (of_nat (8 * (64 + length m)))]"
    using assms by (intro chunks_one) (auto simp: length_be_bytes64)
  ultimately show ?thesis
    using assms(1) by (simp add: sha1_def chunks_append)
qed

lemma DecodeString_rfc4226: "DecodeString (ToUpper_ascii (remove_char (CHR '' '') rfc4226_secret)) = Inr rfc4226_key"
  by (simp add: DecodeString_def ToUpper_ascii_def remove_char_def rfc4226_secret_def rfc4226_key_def
      to_upper_char_def b32_decodeMap_def b32_pack_def Let_def)

lemma hmac_sha1_blocks:
  assumes "length k = 64" "length msg = 8"
  shows "hmac_sum sha1 k msg =
    sha1_out (sha1_block (sha1_block sha1_init (map (\<lambda>b. b XOR 0x5c) k))
      (sha1_out (sha1_block (sha1_block sha1_init (map (\<lambda>b. b XOR 0x36) k))
          (msg @ 0x80 # replicate 47 0 @ be_bytes64 576))
        @ 0x80 # replicate 35 0 @ be_bytes64 672))"
proof -
  have inner: "sha1 (map (\<lambda>b. b XOR 0x36) k @ msg) =
      sha1_out (sha1_block (sha1_block sha1_init (map (\<lambda>b. b XOR 0x36) k))
          (msg @ 0x80 # replicate 47 0 @ be_bytes64 576))"
    using sha1_two_blocks [of "map (\<lambda>b. b XOR 0x36) k" msg 47] assms by simp
  have outer: "sha1 (map (\<lambda>b. b XOR 0x5c) k @ d) =
      sha1_out (sha1_block (sha1_block sha1_init (map (\<lambda>b. b XOR 0x5c) k))
          (d @ 0x80 # replicate 35 0 @ be_bytes64 672))" if "length d = 20" for d
    using sha1_two_blocks [of "map (\<lambda>b. b XOR 0x5c) k" d 35] assms that by simp
  show ?thesis
    unfolding hmac_sum_def inner
    by (rule outer) (rule length_sha1_out)
qed

lemma hmac_key_rfc4226:
  "hmac_key sha1 64 rfc4226_key = rfc4226_key @ replicate 44 0"
  by (simp add: hmac_key_def rfc4226_key_def)

lemmas sha1_block_eval =
  be_bytes64_def be_bytes32_def be_uint32_def chunks.simps
  sha1_schedule_def sha1_block_def sha1_rounds_def sha1_extend_numeral replicate_numeral_eval
  rotl32_eval sha1_round_eval sha1_add_eval sha_ch_eval sha_parity_def sha_maj_def

lemma rfc4226_ipad:
  "sha1_block sha1_init (map (\<lambda>b. b XOR 0x36) (rfc4226_key @ replicate 44 0)) =
     (3418885260, 4120502956, 3183003698, 3667247555, 4167577637)"
  by (simp add: sha1_init_def rfc4226_key_def sha1_block_eval
      del: sha1_round.simps sha1_add.simps)

lemma rfc4226_opad:
  "sha1_block sha1_init (map (\<lambda>b. b XOR 0x5c) (rfc4226_key @ replicate 44 0)) =
     (2562571725, 1491106814, 2908544490, 985678603, 4262488101)"
  by (simp add: sha1_init_def rfc4226_key_def sha1_block_eval
      del: sha1_round.simps sha1_add.simps)

lemma rfc4226_inner_0:
  "sha1_out (sha1_block (3418885260, 4120502956, 3183003698, 3667247555, 4167577637)
     (be_bytes64 0 @ 0x80 # replicate 47 0 @ be_bytes64 576)) =
     [8, 145, 217, 190, 9, 187, 22, 199, 200, 114, 45, 243, 104, 216, 99, 80, 102, 126, 73,
     158]"
  by (simp add: sha1_block_eval del: sha1_round.simps sha1_add.simps)

lemma rfc4226_outer_0:
  "sha1_out (sha1_block (2562571725, 1491106814, 2908544490, 985678603, 4262488101)
     ([8, 145, 217, 190, 9, 187, 22, 199, 200, 114, 45, 243, 104, 216, 99, 80, 102, 126, 73,
     158]
        @ 0x80 # replicate 35 0 @ be_bytes64 672)) =
     [204, 147, 207, 24, 80, 141, 148, 147, 76, 100, 182, 93, 139, 167, 102, 127, 183, 205, 228,
     176]"
  by (simp add: sha1_block_eval del: sha1_round.simps sha1_add.simps)

lemma hmac_rfc4226_0:
  "hmac (sha1, 64) rfc4226_key (be_bytes64 0) =
     [204, 147, 207, 24, 80, 141, 148, 147, 76, 100, 182, 93, 139, 167, 102, 127, 183, 205, 228,
     176]"
proof -
  have "length (rfc4226_key @ replicate 44 0) = 64"
    by (simp add: rfc4226_key_def)
  then show ?thesis
    by (simp only: hmac_def fst_conv snd_conv hmac_key_rfc4226 hmac_sha1_blocks
        length_be_bytes64 rfc4226_ipad rfc4226_opad rfc4226_inner_0 rfc4226_outer_0)
qed

lemma rfc4226_inner_1:
  "sha1_out (sha1_block (3418885260, 4120502956, 3183003698, 3667247555, 4167577637)
     (be_bytes64 1 @ 0x80 # replicate 47 0 @ be_bytes64 576)) =
     [174, 57, 138, 210, 229, 57, 214, 92, 93, 162, 218, 156, 138, 97, 52, 65, 151, 57, 58,
     140]"
  by (simp add: sha1_block_eval del: sha1_round.simps sha1_add.simps)

lemma rfc4226_outer_1:
  "sha1_out (sha1_block (2562571725, 1491106814, 2908544490, 985678603, 4262488101)
     ([174, 57, 138, 210, 229, 57, 214, 92, 93, 162, 218, 156, 138, 97, 52, 65, 151, 57, 58,
     140]
        @ 0x80 # replicate 35 0 @ be_bytes64 672)) =
     [117, 164, 138, 25, 212, 203, 225, 0, 100, 78, 138, 193, 57, 126, 234, 116, 122, 45, 51,
     171]"
  by (simp add: sha1_block_eval del: sha1_round.simps sha1_add.simps)

lemma hmac_rfc4226_1:
  "hmac (sha1, 64) rfc4226_key (be_bytes64 1) =
     [117, 164, 138, 25, 212, 203, 225, 0, 100, 78, 138, 193, 57, 126, 234, 116, 122, 45, 51,
     171]"
proof -
  have "length (rfc4226_key @ replicate 44 0) = 64"
    by (simp add: rfc4226_key_def)
  then show ?thesis
    by (simp only: hmac_def fst_conv snd_conv hmac_key_rfc4226 hmac_sha1_blocks
        length_be_bytes64 rfc4226_ipad rfc4226_opad rfc4226_inner_1 rfc4226_outer_1)
qed

lemma rfc4226_inner_2:
  "sha1_out (sha1_block (3418885260, 4120502956, 3183003698, 3667247555, 4167577637)
     (be_bytes64 2 @ 0x80 # replicate 47 0 @ be_bytes64 576)) =
     [222, 4, 19, 87, 252, 175, 249, 145, 131, 79, 99, 78, 93, 47, 209, 61, 129, 25, 100, 11]"
  by (simp add: sha1_block_eval del: sha1_round.simps sha1_add.simps)

lemma rfc4226_outer_2:
  "sha1_out (sha1_block (2562571725, 1491106814, 2908544490, 985678603, 4262488101)
     ([222, 4, 19, 87, 252, 175, 249, 145, 131, 79, 99, 78, 93, 47, 209, 61, 129, 25, 100, 11]
        @ 0x80 # replicate 35 0 @ be_bytes64 672)) =
     [11, 172, 183, 250, 8, 47, 239, 48, 120, 34, 17, 147, 139, 193, 197, 231, 4, 22, 255, 68]"
  by (simp add: sha1_block_eval del: sha1_round.simps sha1_add.simps)

lemma hmac_rfc4226_2:
  "hmac (sha1, 64) rfc4226_key (be_bytes64 2) =
     [11, 172, 183, 250, 8, 47, 239, 48, 120, 34, 17, 147, 139, 193, 197, 231, 4, 22, 255, 68]"
proof -
  have "length (rfc4226_key @ replicate 44 0) = 64"
    by (simp add: rfc4226_key_def)
  then show ?thesis
    by (simp only: hmac_def fst_conv snd_conv hmac_key_rfc4226 hmac_sha1_blocks
        length_be_bytes64 rfc4226_ipad rfc4226_opad rfc4226_inner_2 rfc4226_outer_2)
qed

lemma rfc4226_inner_3:
  "sha1_out (sha1_block (3418885260, 4120502956, 3183003698, 3667247555, 4167577637)
     (be_bytes64 3 @ 0x80 # replicate 47 0 @ be_bytes64 576)) =
     [195, 92, 190, 234, 19, 102, 205, 98, 94, 144, 22, 53, 115, 23, 231, 220, 90, 83, 171,
     250]"
  by (simp add: sha1_block_eval del: sha1_round.simps sha1_add.simps)

lemma rfc4226_outer_3:
  "sha1_out (sha1_block (2562571725, 1491106814, 2908544490, 985678603, 4262488101)
     ([195, 92, 190, 234, 19, 102, 205, 98, 94, 144, 22, 53, 115, 23, 231, 220, 90, 83, 171,
     250]
        @ 0x80 # replicate 35 0 @ be_bytes64 672)) =
     [102, 194, 130, 39, 208, 58, 45, 85, 41, 38, 47, 240, 22, 161, 230, 239, 118, 85, 126,
     206]"
  by (simp add: sha1_block_eval del: sha1_round.simps sha1_add.simps)

lemma hmac_rfc4226_3:
  "hmac (sha1, 64) rfc4226_key (be_bytes64 3) =
     [102, 194, 130, 39, 208, 58, 45, 85, 41, 38, 47, 240, 22, 161, 230, 239, 118, 85, 126,
     206]"
proof -
  have "length (rfc4226_key @ replicate 44 0) = 64"
    by (simp add: rfc4226_key_def)
  then show ?thesis
    by (simp only: hmac_def fst_conv snd_conv hmac_key_rfc4226 hmac_sha1_blocks
        length_be_bytes64 rfc4226_ipad rfc4226_opad rfc4226_inner_3 rfc4226_outer_3)
qed

lemma rfc4226_inner_max:
  "sha1_out (sha1_block (3418885260, 4120502956, 3183003698, 3667247555, 4167577637)
     (be_bytes64 18446744073709551615 @ 0x80 # replicate 47 0 @ be_bytes64 576)) =
     [0, 158, 29, 47, 58, 201, 142, 144, 71, 173, 176, 12, 76, 131, 192, 108, 168, 253, 81, 30]"
  by (simp add: sha1_block_eval del: sha1_round.simps sha1_add.simps)

lemma rfc4226_outer_max:
  "sha1_out (sha1_block (2562571725, 1491106814, 2908544490, 985678603, 4262488101)
     ([0, 158, 29, 47, 58, 201, 142, 144, 71, 173, 176, 12, 76, 131, 192, 108, 168, 253, 81, 30]
        @ 0x80 # replicate 35 0 @ be_bytes64 672)) =
     [246, 22, 253, 102, 183, 240, 98, 144, 104, 107, 99, 32, 206, 179, 77, 101, 177, 254, 147,
     234]"
  by (simp add: sha1_block_eval del: sha1_round.simps sha1_add.simps)

lemma hmac_rfc4226_max:
  "hmac (sha1, 64) rfc4226_key (be_bytes64 18446744073709551615) =
     [246, 22, 253, 102, 183, 240, 98, 144, 104, 107, 99, 32, 206, 179, 77, 101, 177, 254, 147,
     234]"
proof -
  have "length (rfc4226_key @ replicate 44 0) = 64"
    by (simp add: rfc4226_key_def)
  then show ?thesis
    by (simp only: hmac_def fst_conv snd_conv hmac_key_rfc4226 hmac_sha1_blocks
        length_be_bytes64 rfc4226_ipad rfc4226_opad rfc4226_inner_max rfc4226_outer_max)
qed

lemma rfc4226_inner_epoch:
  "sha1_out (sha1_block (3418885260, 4120502956, 3183003698, 3667247555, 4167577637)
     (be_bytes64 614891469123651720 @ 0x80 # replicate 47 0 @ be_bytes64 576)) =
     [69, 167, 27, 147, 194, 195, 80, 243, 9, 194, 167, 58, 255, 180, 126, 217, 108, 22, 231,
     51]"
  by (simp add: sha1_block_eval del: sha1_round.simps sha1_add.simps)

lemma rfc4226_outer_epoch:
  "sha1_out (sha1_block (2562571725, 1491106814, 2908544490, 985678603, 4262488101)
     ([69, 167, 27, 147, 194, 195, 80, 243, 9, 194, 167, 58, 255, 180, 126, 217, 108, 22, 231,
     51]
        @ 0x80 # replicate 35 0 @ be_bytes64 672)) =
     [165, 114, 192, 238, 238, 108, 190, 182, 246, 227, 4, 118, 1, 198, 184, 217, 174, 255, 141,
     208]"
  by (simp add: sha1_block_eval del: sha1_round.simps sha1_add.simps)

lemma hmac_rfc4226_epoch:
  "hmac (sha1, 64) rfc4226_key (be_bytes64 614891469123651720) =
     [165, 114, 192, 238, 238, 108, 190, 182, 246, 227, 4, 118, 1, 198, 184, 217, 174, 255, 141,
     208]"
proof -
  have "length (rfc4226_key @ replicate 44 0) = 64"
    by (simp add: rfc4226_key_def)
  then show ?thesis
    by (simp only: hmac_def fst_conv snd_conv hmac_key_rfc4226 hmac_sha1_blocks
        length_be_bytes64 rfc4226_ipad rfc4226_opad rfc4226_inner_epoch rfc4226_outer_epoch)
qed

lemma rfc4226_inner_far:
  "sha1_out (sha1_block (3418885260, 4120502956, 3183003698, 3667247555, 4167577637)
     (be_bytes64 307445734561825860 @ 0x80 # replicate 47 0 @ be_bytes64 576)) =
     [248, 64, 67, 17, 226, 87, 2, 145, 94, 130, 239, 245, 23, 118, 97, 27, 6, 24, 240, 6]"
  by (simp add: sha1_block_eval del: sha1_round.simps sha1_add.simps)

lemma rfc4226_outer_far:
  "sha1_out (sha1_block (2562571725, 1491106814, 2908544490, 985678603, 4262488101)
     ([248, 64, 67, 17, 226, 87, 2, 145, 94, 130, 239, 245, 23, 118, 97, 27, 6, 24, 240, 6]
        @ 0x80 # replicate 35 0 @ be_bytes64 672)) =
     [232, 192, 234, 244, 118, 135, 38, 166, 151, 94, 94, 137, 133, 170, 170, 41, 110, 118, 43,
     182]"
  by (simp add: sha1_block_eval del: sha1_round.simps sha1_add.simps)

lemma hmac_rfc4226_far:
  "hmac (sha1, 64) rfc4226_key (be_bytes64 307445734561825860) =
     [232, 192, 234, 244, 118, 135, 38, 166, 151, 94, 94, 137, 133, 170, 170, 41, 110, 118, 43,
     182]"
proof -
  have "length (rfc4226_key @ replicate 44 0) = 64"
    by (simp add: rfc4226_key_def)
  then show ?thesis
    by (simp only: hmac_def fst_conv snd_conv hmac_key_rfc4226 hmac_sha1_blocks
        length_be_bytes64 rfc4226_ipad rfc4226_opad rfc4226_inner_far rfc4226_outer_far)
qed

lemma rfc4226_decodeSecret: "decodeSecret ToUpper_ascii (rfc4226_config d n) = Inr rfc4226_key"
  by (simp add: decodeSecret_def rfc4226_config_def NewHOTP_def DecodeString_rfc4226)

lemma rfc4226_getHash: "getHash (rfc4226_config d n) = (sha1, 64)"
  by (simp add: getHash_def rfc4226_config_def NewHOTP_def AlgorithmSHA1_def AlgorithmSHA256_def
      AlgorithmSHA512_def)

lemma rfc4226_Digits: "Digits (rfc4226_config d n) = d"
  by (simp add: rfc4226_config_def NewHOTP_def)

lemmas otp_eval = truncatedHash_def be_uint32_def pow10_uint32_def sprintf_0d_def decimal.simps
  digit_char_def

lemma rfc4226_generateOTP:
  assumes "0 < d" "d \<le> 10"
  shows "generateOTP ToUpper_ascii (rfc4226_config d n) k =
     Inr (sprintf_0d d (unat (truncatedHash (hmac (sha1, 64) rfc4226_key (be_bytes64 k))
        mod pow10_uint32 d)))"
  using generateOTP_valid [where c = "rfc4226_config d n" and upper = ToUpper_ascii
      and key = rfc4226_key and counter = k] assms
  by (simp add: rfc4226_decodeSecret rfc4226_getHash rfc4226_Digits)

lemma rfc4226_code_0: "generateOTP ToUpper_ascii (rfc4226_config 6 n) 0 = Inr ''755224''"
  by (simp add: rfc4226_generateOTP hmac_rfc4226_0 otp_eval)


lemma rfc4226_code_max:
  "generateOTP ToUpper_ascii (rfc4226_config 6 n) 18446744073709551615 = Inr ''094451''"
  by (simp add: rfc4226_generateOTP hmac_rfc4226_max otp_eval)

lemma rfc4226_code_epoch:
  "generateOTP ToUpper_ascii (rfc4226_config 6 n) 614891469123651720 = Inr ''277486''"
  by (simp add: rfc4226_generateOTP hmac_rfc4226_epoch otp_eval)

lemma rfc4226_code_far:
  "generateOTP ToUpper_ascii (rfc4226_config 6 n) 307445734561825860 = Inr ''451934''"
  by (simp add: rfc4226_generateOTP hmac_rfc4226_far otp_eval)

section \<open>Derivation\<close>

lemma generateOTP_fields:
  assumes "Secret c' = Secret c" "Digits c' = Digits c" "Algorithm c' = Algorithm c"
  shows "generateOTP upper c' counter = generateOTP upper c counter"
proof -
  have h: "getHash c' = getHash c"
    using assms by (simp add: getHash_def)
  have d: "decodeSecret upper c' = decodeSecret upper c"
    using assms by (simp add: decodeSecret_def)
  show ?thesis
    unfolding generateOTP_def h d assms(2) ..
qed

text \<open>
  \<open>strings.ToUpper\<close> enters a derivation through the upper-cased secret only: two functions
  that agree on the secret of a configuration, its spaces removed, give the same result.
  On a secret of ASCII bytes the library function is \<open>ToUpper_ascii\<close>, so what is computed
  with \<open>ToUpper_ascii\<close> on such a secret is what the library function gives.
\<close>

lemma generateOTP_upper:
  assumes "upper (remove_char (CHR '' '') (Secret c)) = upper' (remove_char (CHR '' '') (Secret c))"
  shows "generateOTP upper c counter = generateOTP upper' c counter"
  unfolding generateOTP_def decodeSecret_def assms ..

text \<open>
  Claim C4. When the digit count is between 1 and 10 and the secret decodes, \<open>generateOTP\<close>
  returns a code: a string of decimal digits of length exactly the digit count, the decimal
  notation of a number with zeros added on the left. The code is a function of the secret,
  the counter, the digit count and the algorithm: a configuration that agrees on these
  fields gives the same string.
\<close>

theorem generateOTP_deterministic_length:
  assumes "0 < Digits c" "Digits c \<le> 10" "decodeSecret upper c = Inr key"
  shows "\<exists>s v. generateOTP upper c counter = Inr s \<and> length s = nat (Digits c)
           \<and> list_all (\<lambda>ch. ch \<in> set ''0123456789'') s
           \<and> s = replicate (nat (Digits c) - length (decimal v)) (CHR ''0'') @ decimal v
           \<and> (\<forall>c'. Secret c' = Secret c \<and> Digits c' = Digits c \<and> Algorithm c' = Algorithm c
                  \<longrightarrow> generateOTP upper c' counter = Inr s)"
proof -
  let ?v = "unat (truncatedHash (hmac (getHash c) key (be_bytes64 counter))
                      mod pow10_uint32 (Digits c))"
  let ?s = "sprintf_0d (Digits c) ?v"
  have s: "generateOTP upper c counter = Inr ?s"
    using assms by (rule generateOTP_valid)
  then have len: "length ?s = nat (Digits c) \<and> set ?s \<subseteq> set ''0123456789''"
    using assms generateOTP_length by blast
  then have digits: "list_all (\<lambda>ch. ch \<in> set ''0123456789'') ?s"
    unfolding list_all_iff by blast
  have pad: "?s = replicate (nat (Digits c) - length (decimal ?v)) (CHR ''0'') @ decimal ?v"
    by (simp add: sprintf_0d_def)
  have "\<forall>c'. Secret c' = Secret c \<and> Digits c' = Digits c \<and> Algorithm c' = Algorithm c
                  \<longrightarrow> generateOTP upper c' counter = Inr ?s"
    using s generateOTP_fields by metis
  with s len digits pad show ?thesis by blast
qed

theorem generateOTP_deterministic_length_witness:
  "0 < Digits (rfc4226_config 6 0) \<and> Digits (rfc4226_config 6 0) \<le> 10
   \<and> decodeSecret ToUpper_ascii (rfc4226_config 6 0) = Inr rfc4226_key
   \<and> (\<exists>s. generateOTP ToUpper_ascii (rfc4226_config 6 0) 5 = Inr s \<and> length s = 6
          \<and> generateOTP ToUpper_ascii (rfc4226_config 6 9) 5 = Inr s)"
proof -
  have h: "0 < Digits (rfc4226_config 6 0)" "Digits (rfc4226_config 6 0) \<le> 10"
      "decodeSecret ToUpper_ascii (rfc4226_config 6 0) = Inr rfc4226_key"
    by (simp_all add: rfc4226_Digits rfc4226_decodeSecret)
  have same: "Secret (rfc4226_config 6 9) = Secret (rfc4226_config 6 0)"
      "Digits (rfc4226_config 6 9) = Digits (rfc4226_config 6 0)"
      "Algorithm (rfc4226_config 6 9) = Algorithm (rfc4226_config 6 0)"
    by (simp_all add: rfc4226_config_def NewHOTP_def)
  from generateOTP_deterministic_length [OF h, of 5] obtain s where
    "generateOTP ToUpper_ascii (rfc4226_config 6 0) 5 = Inr s" "length s = nat (Digits (rfc4226_config 6 0))"
    "\<forall>c'. Secret c' = Secret (rfc4226_config 6 0) \<and> Digits c' = Digits (rfc4226_config 6 0)
        \<and> Algorithm c' = Algorithm (rfc4226_config 6 0) \<longrightarrow> generateOTP ToUpper_ascii c' 5 = Inr s"
    by blast
  with same h show ?thesis
    by (auto simp: rfc4226_Digits)
qed

section \<open>Rejected digit counts\<close>

lemma word_of_int_nonzero:
  assumes "0 < p" "p < 2 ^ 64"
  shows "(word_of_int p :: uint64) \<noteq> 0"
proof -
  have "uint (word_of_int p :: uint64) = p"
    using assms by (simp add: uint_word_of_int take_bit_eq_mod)
  with assms(1) show ?thesis by auto
qed

lemma word_of_int_zero_iff:
  assumes "int_range p"
  shows "(word_of_int p :: uint64) = 0 \<longleftrightarrow> p = 0"
proof
  assume "(word_of_int p :: uint64) = 0"
  then have d: "(2 :: int) ^ 64 dvd p"
    by (simp add: word_of_int_eq_0_iff)
  show "p = 0"
  proof (rule ccontr)
    assume "p \<noteq> 0"
    with d have "\<bar>(2 :: int) ^ 64\<bar> \<le> \<bar>p\<bar>"
      by (intro dvd_imp_le_int)
    with assms show False
      by (simp add: int_range_def abs_if split: if_splits)
  qed
qed simp

lemma hotp_loop_invalid_digits:
  assumes "Digits c \<le> 0 \<or> 10 < Digits c" "i \<le> w"
  shows "hotp_loop upper c code w i = Inl ErrInvalidDigits"
  using assms by (subst hotp_loop.simps) (simp add: generateOTP_def)

lemma totp_loop_invalid_digits:
  assumes "Digits c \<le> 0 \<or> 10 < Digits c" "i \<le> w"
  shows "totp_loop upper c code cur w i = Inl ErrInvalidDigits"
  using assms by (subst totp_loop.simps) (simp add: generateOTP_def)

text \<open>
  With a digit count outside 1..10, \<open>generateOTP\<close> returns \<open>ErrInvalidDigits\<close> and no
  code, for every counter and whatever the secret is; nothing is clamped. The operations
  that reach the derivation return the same error: \<open>GenerateHOTP\<close>, \<open>GenerateHOTPAt\<close>,
  \<open>ValidateHOTP\<close> and \<open>GenerateTOTPAt\<close> always, \<open>GenerateTOTPBatch\<close> wrapped in the message
  of its first window, and \<open>ValidateTOTPAt\<close> for a period other than zero.
\<close>

lemma invalid_digits_error:
  assumes "Digits c \<le> 0 \<or> 10 < Digits c" and "int_range (Period c)"
  shows "generateOTP upper c counter = Inl ErrInvalidDigits
       \<and> fst (GenerateHOTP upper c) = Inl ErrInvalidDigits
       \<and> fst (GenerateHOTPAt upper counter c) = Inl ErrInvalidDigits
       \<and> fst (ValidateHOTP upper code windowSize c) = Inl ErrInvalidDigits
       \<and> fst (GenerateTOTPAt upper t c) = Inl ErrInvalidDigits
       \<and> fst (GenerateTOTPBatch upper windowCount clock c) =
            Inl (Wrapped (''failed to generate TOTP for window '' @ Itoa 0) ErrInvalidDigits)
       \<and> (Period c \<noteq> 0 \<longrightarrow> fst (ValidateTOTPAt upper code t windowSize c) = Inl ErrInvalidDigits)"
proof -
  have g: "generateOTP upper c n = Inl ErrInvalidDigits" for n
    using assms(1) by (simp add: generateOTP_def)
  have hotp: "fst (ValidateHOTP upper code windowSize c) = Inl ErrInvalidDigits"
    using assms(1) by (simp add: ValidateHOTP_def hotp_loop_invalid_digits)
  have gen: "fst (GenerateTOTPAt upper t c) = Inl ErrInvalidDigits" for t
  proof (cases "Period c \<le> 0")
    case True
    then show ?thesis
      using assms(1) by (simp add: GenerateTOTPAt_def generateOTP_def)
  next
    case False
    then have "(word_of_int (Period c) :: uint64) \<noteq> 0"
      using assms(2) by (intro word_of_int_nonzero) (auto simp: int_range_def)
    with False show ?thesis
      by (simp add: GenerateTOTPAt_def g)
  qed
  have val: "fst (ValidateTOTPAt upper code t windowSize c) = Inl ErrInvalidDigits"
    if "Period c \<noteq> 0"
  proof -
    have "word_of_int (Period c) = (0 :: uint64) \<longleftrightarrow> Period c = 0"
      using assms(2) by (rule word_of_int_zero_iff)
    with that assms(1) show ?thesis
      by (simp add: ValidateTOTPAt_def Let_def totp_loop_invalid_digits)
  qed
  have batch: "fst (GenerateTOTPBatch upper windowCount clock c) =
      Inl (Wrapped (''failed to generate TOTP for window '' @ Itoa 0) ErrInvalidDigits)"
  proof -
    define n where "n = (if windowCount \<le> 0 then 3 else windowCount)"
    define target where "target = clock 0 + seconds ((0 - quot n 2) * Period c)"
    have n: "0 < n" by (simp add: n_def)
    obtain c1 where "GenerateTOTPAt upper target c = (Inl ErrInvalidDigits, c1)"
      using gen [of target] by (cases "GenerateTOTPAt upper target c") simp
    with n show ?thesis
      unfolding GenerateTOTPBatch_def n_def [symmetric]
      by (subst batch_loop.simps) (simp add: Let_def target_def)
  qed
  from g hotp gen val batch show ?thesis
    by (simp add: GenerateHOTP_def GenerateHOTPAt_def)
qed

text \<open>
  Claim C5. With a digit count outside 1..10 every generate and validate operation is to
  fail with \<open>ErrInvalidDigits\<close>. \<open>ValidateTOTPAt\<close> does not when the period is 0, as it is
  in a configuration made by \<open>NewHOTP\<close>: it divides by the period before it derives a
  code, and the division panics. \<open>GenerateTOTPAt\<close>, on the same configuration, writes the
  default period first and returns \<open>ErrInvalidDigits\<close>.
\<close>

theorem ValidateTOTPAt_invalid_digits_panics:
  "Digits (NewHOTP rfc4226_secret [] ''alice'' 11 0) = 11
   \<and> Period (NewHOTP rfc4226_secret [] ''alice'' 11 0) = 0
   \<and> fst (ValidateTOTPAt ToUpper_ascii ''755224'' 59000000000 1
            (NewHOTP rfc4226_secret [] ''alice'' 11 0)) = Inl PanicDivideByZero
   \<and> fst (GenerateTOTPAt ToUpper_ascii 59000000000 (NewHOTP rfc4226_secret [] ''alice'' 11 0)) =
       Inl ErrInvalidDigits"
  by (simp add: ValidateTOTPAt_def GenerateTOTPAt_def generateOTP_def NewHOTP_def Let_def)

section \<open>Negative window sizes\<close>

text \<open>
  Claim C3. A negative window size is not rejected: \<open>ValidateHOTP\<close> behaves exactly as
  with window size 10, and \<open>ValidateTOTPAt\<close> exactly as with window size 1.
\<close>

theorem negative_window_default:
  assumes "windowSize < 0"
  shows "ValidateHOTP upper code windowSize c = ValidateHOTP upper code 10 c
       \<and> ValidateTOTPAt upper code t windowSize c = ValidateTOTPAt upper code t 1 c"
  using assms by (simp add: ValidateHOTP_def ValidateTOTPAt_def)

theorem negative_window_default_witness:
  "(- 3 :: int) < 0
   \<and> ValidateHOTP ToUpper_ascii ''969429'' (- 3) (rfc4226_config 6 0) = ValidateHOTP ToUpper_ascii ''969429'' 10 (rfc4226_config 6 0)
   \<and> ValidateTOTPAt ToUpper_ascii ''969429'' 59000000000 (- 3) (NewTOTP rfc4226_secret [] ''alice'' 6 30)
       = ValidateTOTPAt ToUpper_ascii ''969429'' 59000000000 1 (NewTOTP rfc4226_secret [] ''alice'' 6 30)"
proof -
  have h: "(- 3 :: int) < 0" by simp
  show ?thesis
    using h negative_window_default [OF h] by simp
qed

section \<open>HOTP validation\<close>

lemma uint_word_of_int_64:
  assumes "0 \<le> x" "x < 2 ^ 64"
  shows "uint (word_of_int x :: uint64) = x"
  using assms by (simp add: uint_word_of_int take_bit_eq_mod)






lemma rfc4226_code_1: "generateOTP ToUpper_ascii (rfc4226_config 6 n) 1 = Inr ''287082''"
  by (simp add: rfc4226_generateOTP hmac_rfc4226_1 otp_eval)

lemma rfc4226_code_2: "generateOTP ToUpper_ascii (rfc4226_config 6 n) 2 = Inr ''359152''"
  by (simp add: rfc4226_generateOTP hmac_rfc4226_2 otp_eval)




lemma uint64_max_succ: "(18446744073709551615 :: uint64) + 1 = 0"
  by simp




section \<open>TOTP validation\<close>


lemma word_div_of_int:
  assumes "0 \<le> x" "x < 2 ^ 64" "0 < p" "p < 2 ^ 64"
  shows "(word_of_int x :: uint64) div word_of_int p = word_of_int (x div p)"
proof -
  have "x div p \<le> x div 1"
    using assms(1,3) by (intro zdiv_mono2) auto
  then have r: "0 \<le> x div p" "x div p < 2 ^ 64"
    using assms by (simp_all add: pos_imp_zdiv_nonneg_iff)
  have "uint ((word_of_int x :: uint64) div word_of_int p) = x div p"
    using assms by (simp add: uint_div uint_word_of_int_64)
  also have "\<dots> = uint (word_of_int (x div p) :: uint64)"
    using r by (simp add: uint_word_of_int_64)
  finally show ?thesis
    by (rule word_uint_eqI)
qed

lemma rfc4226_totp_code: "generateOTP ToUpper_ascii rfc4226_totp k = generateOTP ToUpper_ascii (rfc4226_config 6 0) k"
  by (rule generateOTP_fields) (simp_all add: rfc4226_totp_def rfc4226_config_def NewTOTP_def NewHOTP_def)

lemma rfc4226_totp_fields:
  "Digits rfc4226_totp = 6" "Period rfc4226_totp = 30"
  "decodeSecret ToUpper_ascii rfc4226_totp = Inr rfc4226_key"
  by (simp_all add: rfc4226_totp_def NewTOTP_def decodeSecret_def DecodeString_rfc4226)




section \<open>The period of a TOTP validation\<close>

lemma generateOTP_no_panic:
  "generateOTP upper c n \<noteq> Inl PanicDivideByZero \<and> generateOTP upper c n \<noteq> Inl PanicOutOfRange"
proof (cases "Digits c \<le> 0 \<or> 10 < Digits c")
  case True
  then show ?thesis by (simp add: generateOTP_def)
next
  case False
  show ?thesis
  proof (cases "decodeSecret upper c")
    case (Inl err)
    with False show ?thesis by (simp add: generateOTP_def)
  next
    case (Inr key)
    with False obtain s where "generateOTP upper c n = Inr s"
      using generateOTP_total [where c = c and upper = upper and key = key and counter = n] by auto
    then show ?thesis by simp
  qed
qed

lemma totp_loop_no_panic: "totp_loop upper c code cur w i \<noteq> Inl PanicDivideByZero"
proof (induction upper c code cur w i rule: totp_loop.induct)
  case (1 upper c code currentCounter windowSize i)
  show ?case
    using "1.IH" generateOTP_no_panic [of upper c "currentCounter + word_of_int i"]
    by (subst totp_loop.simps) (auto split: sum.splits)
qed

lemma word_div_big_divisor:
  assumes "0 \<le> x" "x < 2 ^ 63" "- (2 ^ 63) \<le> p" "p < 0"
  shows "(word_of_int x :: uint64) div word_of_int p = 0"
proof -
  have up: "uint (word_of_int p :: uint64) = 2 ^ 64 + p"
  proof -
    have "uint (word_of_int p :: uint64) = p mod 2 ^ 64"
      by (simp add: uint_word_of_int take_bit_eq_mod)
    also have "\<dots> = (p + 2 ^ 64) mod 2 ^ 64" by simp
    also have "\<dots> = p + 2 ^ 64" using assms(3,4) by (intro mod_pos_pos_trivial) auto
    finally show ?thesis by simp
  qed
  have ux: "uint (word_of_int x :: uint64) = x"
    using assms(1,2) by (intro uint_word_of_int_64) auto
  have "uint ((word_of_int x :: uint64) div word_of_int p) = x div (2 ^ 64 + p)"
    by (simp add: uint_div up ux)
  also have "\<dots> = 0"
    using assms by (intro div_pos_pos_trivial) auto
  finally show ?thesis
    by (simp add: word_uint_eqI)
qed

text \<open>
  Claim C10. \<open>ValidateTOTPAt\<close> does not replace a period that is not positive by 30, as
  \<open>GenerateTOTPAt\<close> does. It divides the seconds by \<open>uint64(c.Period)\<close> as it is: with period
  0 the division panics; with a negative period the divisor is \<open>2 ^ 64 + period\<close> and the
  step is 0 whatever the time; only with a positive period is the step
  \<open>floor (unix-seconds / period)\<close> and the division free of a panic.
\<close>

theorem ValidateTOTPAt_period_precondition:
  assumes "int_range (Period c)" "0 \<le> Unix t" "Unix t < 2 ^ 63"
  shows "(Period c = 0 \<longrightarrow> fst (ValidateTOTPAt upper code t w c) = Inl PanicDivideByZero)
       \<and> (Period c < 0 \<longrightarrow>
            fst (ValidateTOTPAt upper code t w c) =
              totp_loop upper c code 0 (if w < 0 then 1 else w) (- (if w < 0 then 1 else w)))
       \<and> (0 < Period c \<longrightarrow>
            fst (ValidateTOTPAt upper code t w c) =
              totp_loop upper c code (word_of_int (Unix t div Period c))
                (if w < 0 then 1 else w) (- (if w < 0 then 1 else w))
            \<and> fst (ValidateTOTPAt upper code t w c) \<noteq> Inl PanicDivideByZero)
       \<and> (Period c \<le> 0 \<longrightarrow>
            GenerateTOTPAt upper t c =
              (generateOTP upper (c\<lparr>Period := 30\<rparr>) (word_of_int (Unix t div 30)), c\<lparr>Period := 30\<rparr>))"
proof (intro conjI impI)
  assume "Period c = 0"
  then show "fst (ValidateTOTPAt upper code t w c) = Inl PanicDivideByZero"
    by (simp add: ValidateTOTPAt_def Let_def)
next
  assume neg: "Period c < 0"
  then have nz: "(word_of_int (Period c) :: uint64) \<noteq> 0"
    using word_of_int_zero_iff [OF assms(1)] by simp
  have "(word_of_int (Unix t) :: uint64) div word_of_int (Period c) = 0"
    using assms neg by (intro word_div_big_divisor) (auto simp: int_range_def)
  with nz show "fst (ValidateTOTPAt upper code t w c) =
      totp_loop upper c code 0 (if w < 0 then 1 else w) (- (if w < 0 then 1 else w))"
    by (simp add: ValidateTOTPAt_def Let_def)
next
  assume pos: "0 < Period c"
  then have nz: "(word_of_int (Period c) :: uint64) \<noteq> 0"
    using word_of_int_zero_iff [OF assms(1)] by simp
  have "(word_of_int (Unix t) :: uint64) div word_of_int (Period c) =
      word_of_int (Unix t div Period c)"
    using assms pos by (intro word_div_of_int) (auto simp: int_range_def)
  with nz show "fst (ValidateTOTPAt upper code t w c) =
      totp_loop upper c code (word_of_int (Unix t div Period c))
        (if w < 0 then 1 else w) (- (if w < 0 then 1 else w))"
    by (simp add: ValidateTOTPAt_def Let_def)
  then show "fst (ValidateTOTPAt upper code t w c) \<noteq> Inl PanicDivideByZero"
    by (simp add: totp_loop_no_panic)
next
  assume "Period c \<le> 0"
  moreover have "(word_of_int (Unix t) :: uint64) div 30 = word_of_int (Unix t div 30)"
    using word_div_of_int [of "Unix t" 30] assms by simp
  ultimately show "GenerateTOTPAt upper t c =
      (generateOTP upper (c\<lparr>Period := 30\<rparr>) (word_of_int (Unix t div 30)), c\<lparr>Period := 30\<rparr>)"
    by (simp add: GenerateTOTPAt_def Let_def)
qed

theorem ValidateTOTPAt_period_precondition_witness:
  "int_range (Period (rfc4226_config 6 0)) \<and> 0 \<le> Unix 59000000000 \<and> Unix 59000000000 < 2 ^ 63
   \<and> Period (rfc4226_config 6 0) = 0
   \<and> fst (ValidateTOTPAt ToUpper_ascii ''287082'' 59000000000 1 (rfc4226_config 6 0)) = Inl PanicDivideByZero
   \<and> fst (GenerateTOTPAt ToUpper_ascii 59000000000 (rfc4226_config 6 0)) = Inr ''287082''
   \<and> int_range (Period rfc4226_totp) \<and> 0 < Period rfc4226_totp
   \<and> fst (ValidateTOTPAt ToUpper_ascii ''287082'' 59000000000 1 rfc4226_totp) \<noteq> Inl PanicDivideByZero"
proof -
  have h: "int_range (Period (rfc4226_config 6 0))" "0 \<le> Unix 59000000000"
      "Unix 59000000000 < 2 ^ 63"
    by (simp_all add: rfc4226_config_def NewHOTP_def int_range_def Unix_def)
  have p: "Period (rfc4226_config 6 0) = 0"
    by (simp add: rfc4226_config_def NewHOTP_def)
  have h2: "int_range (Period rfc4226_totp)" and p2: "0 < Period rfc4226_totp"
    by (simp_all add: rfc4226_totp_fields int_range_def)
  have g: "generateOTP ToUpper_ascii ((rfc4226_config 6 0)\<lparr>Period := 30\<rparr>) 1 = Inr ''287082''"
    using generateOTP_fields [where c' = "(rfc4226_config 6 0)\<lparr>Period := 30\<rparr>" and c = "rfc4226_config 6 0"
        and upper = ToUpper_ascii and counter = 1]
    by (simp add: rfc4226_code_1)
  have u: "(word_of_int (Unix 59000000000 div 30) :: uint64) = 1"
    by (simp add: Unix_def)
  have a: "fst (ValidateTOTPAt ToUpper_ascii ''287082'' 59000000000 1 (rfc4226_config 6 0)) = Inl PanicDivideByZero"
    using ValidateTOTPAt_period_precondition [OF h, of ToUpper_ascii "''287082''" 1] p by simp
  have b: "fst (GenerateTOTPAt ToUpper_ascii 59000000000 (rfc4226_config 6 0)) = Inr ''287082''"
    using ValidateTOTPAt_period_precondition [OF h, of ToUpper_ascii "''287082''" 1] p g u by simp
  have c: "fst (ValidateTOTPAt ToUpper_ascii ''287082'' 59000000000 1 rfc4226_totp) \<noteq> Inl PanicDivideByZero"
    using ValidateTOTPAt_period_precondition [OF h2 h(2,3), of ToUpper_ascii "''287082''" 1] p2 by blast
  show ?thesis
    using h p a b h2 p2 c by blast
qed

section \<open>What the operations leave of the configuration\<close>

lemma GenerateTOTPAt_snd:
  "snd (GenerateTOTPAt upper t c) = (if Period c \<le> 0 then c\<lparr>Period := 30\<rparr> else c)"
  by (simp add: GenerateTOTPAt_def Let_def)

lemma batch_loop_config:
  "snd (batch_loop upper clock baseTime windowCount i entries c) =
     (if i < windowCount \<and> Period c \<le> 0 then c\<lparr>Period := 30\<rparr> else c)"
proof (induction upper clock baseTime windowCount i entries c rule: batch_loop.induct)
  case (1 upper clock baseTime windowCount i entries c)
  show ?case
  proof (cases "i < windowCount")
    case False
    then show ?thesis by (subst batch_loop.simps) simp
  next
    case True
    define offset where "offset = i - quot windowCount 2"
    define targetTime where "targetTime = baseTime + seconds (offset * Period c)"
    define c1 where "c1 = (if Period c \<le> 0 then c\<lparr>Period := 30\<rparr> else c)"
    have p1: "0 < Period c1" by (simp add: c1_def)
    define r where "r = fst (GenerateTOTPAt upper targetTime c)"
    have g: "GenerateTOTPAt upper targetTime c = (r, c1)"
      by (simp add: prod_eq_iff GenerateTOTPAt_snd c1_def r_def)
    show ?thesis
    proof (cases r)
      case (Inl err)
      with True g show ?thesis
        by (subst batch_loop.simps) (simp add: Let_def offset_def targetTime_def c1_def)
    next
      case (Inr code)
      obtain start "end" where w: "GetCurrentTOTPWindow (clock (nat i + 1)) c1 = ((start, end), c1)"
        using p1 by (simp add: GetCurrentTOTPWindow_def Let_def)
      have "snd (batch_loop upper clock baseTime windowCount i entries c) =
          snd (batch_loop upper clock baseTime windowCount (i + 1)
                (entries @ [\<lparr>Code = code,
                     ValidFrom = (if offset \<noteq> 0 then start + seconds (offset * Period c1) else start),
                     ValidTo = (if offset \<noteq> 0 then end + seconds (offset * Period c1) else end),
                     IsCurrent = (offset = 0)\<rparr>]) c1)"
        using True g Inr w
        by (subst batch_loop.simps) (simp add: Let_def offset_def targetTime_def)
      also have "\<dots> = (if i + 1 < windowCount \<and> Period c1 \<le> 0 then c1\<lparr>Period := 30\<rparr> else c1)"
      proof (rule "1.IH" [where x = offset and xa = targetTime])
        show "(Inr code, c1) = GenerateTOTPAt upper targetTime c"
          using g Inr by simp
        show "((start, end), c1) = GetCurrentTOTPWindow (clock (nat i + 1)) c1"
          using w by simp
      qed (use True in \<open>simp_all add: offset_def targetTime_def\<close>)
      finally show ?thesis
        using True p1 by (simp add: c1_def)
    qed
  qed
qed

text \<open>
  Claim C9, as the code has it. \<open>GenerateHOTP\<close>, \<open>GenerateHOTPAt\<close>, \<open>ValidateHOTP\<close> and
  \<open>ValidateTOTPAt\<close> leave the configuration as it was: the stored counter and every other
  field. \<open>GenerateTOTPAt\<close> and \<open>GenerateTOTPBatch\<close> leave every field but the period as it
  was, and the period too when it is positive; a period that is not positive is replaced
  in the configuration by 30.
\<close>

theorem operations_leave_config:
  "snd (GenerateHOTP upper c) = c \<and> snd (GenerateHOTPAt upper counter c) = c
   \<and> snd (ValidateHOTP upper code w c) = c \<and> snd (ValidateTOTPAt upper code t w c) = c
   \<and> snd (GenerateTOTPAt upper t c) = (if Period c \<le> 0 then c\<lparr>Period := 30\<rparr> else c)
   \<and> snd (GenerateTOTPBatch upper n clock c) = (if Period c \<le> 0 then c\<lparr>Period := 30\<rparr> else c)"
  by (simp add: GenerateHOTP_def GenerateHOTPAt_def ValidateHOTP_def ValidateTOTPAt_def
      GenerateTOTPAt_snd GenerateTOTPBatch_def batch_loop_config Let_def)

text \<open>
  The claim as it is written fails for TOTP generation: on a configuration made by
  \<open>NewHOTP\<close>, whose period is 0, \<open>GenerateTOTPAt\<close> leaves the period 30.
\<close>

theorem GenerateTOTPAt_writes_period_counterexample:
  "Period (rfc4226_config 6 0) = 0
   \<and> Period (snd (GenerateTOTPAt ToUpper_ascii 59000000000 (rfc4226_config 6 0))) = 30"
  by (simp add: GenerateTOTPAt_def rfc4226_config_def NewHOTP_def Let_def)

section \<open>The remainder by a power of ten\<close>

lemma generateOTP_exact_upto_9:
  assumes "0 < Digits c" "Digits c \<le> 9" "decodeSecret upper c = Inr key"
  shows "generateOTP upper c counter =
     Inr (sprintf_0d (Digits c)
       (unat (truncatedHash (hmac (getHash c) key (be_bytes64 counter))) mod 10 ^ nat (Digits c)))"
proof -
  have d: "Digits c \<le> 10" using assms(2) by simp
  have "unat (pow10_uint32 (Digits c)) = 10 ^ nat (Digits c)"
    using unat_pow10_uint32 [OF assms(1) d] assms(2) by simp
  then show ?thesis
    using generateOTP_valid [OF assms(1) d assms(3), of counter] by (simp add: unat_mod)
qed

lemma truncatedHash_rfc4226_3:
  "truncatedHash (hmac (sha1, 64) rfc4226_key (be_bytes64 3)) = 1726969429"
  by (simp add: hmac_rfc4226_3 truncatedHash_def be_uint32_def)

text \<open>
  Claim C6 at ten digits. For counter 3 of the RFC 4226 secret the truncated hash value
  is 1726969429, which is its own remainder by \<open>10 ^ 10\<close>; \<open>generateOTP\<close> takes the remainder
  by \<open>uint32(math.Pow10(10))\<close>, which is 1410065408, and returns 0316904021.
\<close>

theorem generateOTP_ten_digits_overflow:
  "generateOTP ToUpper_ascii (rfc4226_config 10 0) 3 = Inr ''0316904021''
   \<and> sprintf_0d 10 (unat (truncatedHash (hmac (sha1, 64) rfc4226_key (be_bytes64 3))) mod 10 ^ 10)
       = ''1726969429''"
  by (simp add: rfc4226_generateOTP truncatedHash_rfc4226_3 pow10_uint32_def sprintf_0d_def
      decimal.simps digit_char_def)

section \<open>Batch generation\<close>

lemma int64_wrap_id:
  assumes "- (2 ^ 63) \<le> x" "x < 2 ^ 63"
  shows "int64_wrap x = x"
  using assms by (simp add: int64_wrap_def sint_sbintrunc' signed_take_bit_int_eq_self)

lemma seconds_id:
  assumes "\<bar>n\<bar> * 1000000000 < 2 ^ 63"
  shows "seconds n = n * 1000000000"
proof -
  have n: "- (2 ^ 63) \<le> n" "n < 2 ^ 63"
    using assms by (simp_all add: abs_if split: if_splits)
  have m: "- (2 ^ 63) \<le> n * 1000000000" "n * 1000000000 < 2 ^ 63"
    using assms by (simp_all add: abs_if split: if_splits)
  show ?thesis
    by (simp add: seconds_def int64_wrap_id [OF n] int64_wrap_id [OF m])
qed

lemma Unix_add_seconds: "Unix (t + k * 1000000000) = Unix t + k"
  by (simp add: Unix_def)

lemma quot_nonneg: "0 \<le> a \<Longrightarrow> 0 < b \<Longrightarrow> quot a b = a div b"
  by (simp add: quot_def sgn_if)

lemma GenerateTOTPAt_step:
  assumes "0 < Period c" "Period c < 2 ^ 63" "0 \<le> Unix t" "Unix t < 2 ^ 63"
  shows "GenerateTOTPAt upper t c = (generateOTP upper c (word_of_int (Unix t div Period c)), c)"
proof -
  have nz: "(word_of_int (Period c) :: uint64) \<noteq> 0"
    using assms(1,2) by (intro word_of_int_nonzero) auto
  have "(word_of_int (Unix t) :: uint64) div word_of_int (Period c) =
      word_of_int (Unix t div Period c)"
    using assms by (intro word_div_of_int) auto
  with nz assms(1) show ?thesis
    by (simp add: GenerateTOTPAt_def Let_def)
qed

lemma GetCurrentTOTPWindow_step:
  assumes "0 < Period c" "0 \<le> Unix now" "(Unix now div Period c + 1) * Period c < 2 ^ 63"
  shows "GetCurrentTOTPWindow now c =
     ((time_Unix (Unix now div Period c * Period c),
       time_Unix ((Unix now div Period c + 1) * Period c)), c)"
proof -
  have s: "0 \<le> Unix now div Period c"
    using assms(1,2) by (simp add: pos_imp_zdiv_nonneg_iff)
  have le: "Unix now div Period c * Period c \<le> (Unix now div Period c + 1) * Period c"
    using assms(1) by (simp add: distrib_right)
  have nn: "0 \<le> Unix now div Period c * Period c"
    using s assms(1) by simp
  have a: "int64_wrap (Unix now div Period c * Period c) = Unix now div Period c * Period c"
  proof (rule int64_wrap_id)
    show "- (2 ^ 63) \<le> Unix now div Period c * Period c"
      using nn by simp
    show "Unix now div Period c * Period c < 2 ^ 63"
      using le assms(3) by simp
  qed
  have b: "int64_wrap ((Unix now div Period c + 1) * Period c) =
      (Unix now div Period c + 1) * Period c"
  proof (rule int64_wrap_id)
    show "- (2 ^ 63) \<le> (Unix now div Period c + 1) * Period c"
      using nn le by simp
    show "(Unix now div Period c + 1) * Period c < 2 ^ 63"
      by (rule assms(3))
  qed
  show ?thesis
    using assms(1,2) by (simp add: GetCurrentTOTPWindow_def Let_def quot_nonneg a b)
qed

lemma derived_code_valid:
  assumes "0 < Digits c" "Digits c \<le> 10" "decodeSecret upper c = Inr key"
  shows "generateOTP upper c k = Inr (derived_code upper c k)"
  using generateOTP_total [OF assms, of k] by (auto simp: derived_code_def)

lemma batch_loop_entries:
  assumes valid: "0 < Digits c" "Digits c \<le> 10" "decodeSecret upper c = Inr key"
    and period: "0 < Period c" "n div 2 * Period c * 1000000000 < 2 ^ 63"
    and base: "n div 2 * Period c \<le> Unix (clock 0)"
      "Unix (clock 0) + (n - n div 2) * Period c < 2 ^ 63"
    and readings: "\<And>k. 1 \<le> k \<Longrightarrow> k \<le> nat n \<Longrightarrow>
        Unix (clock k) div Period c = Unix (clock 0) div Period c"
    and i: "0 \<le> i" "i \<le> n"
  shows "batch_loop upper clock (clock 0) n i entries c =
           (Inr (entries @ map (batch_entry upper c n (Unix (clock 0) div Period c)) [i..n - 1]), c)"
  using i
proof (induction "nat (n - i)" arbitrary: i entries)
  case 0
  then have "i = n" by simp
  then show ?case
    by (subst batch_loop.simps) simp
next
  case (Suc m)
  define P where "P = Period c"
  define s where "s = Unix (clock 0) div P"
  define offset where "offset = i - n div 2"
  from Suc have lt: "i < n" and i0: "0 \<le> i" by simp_all
  have n0: "0 < n" using lt i0 by simp
  have P0: "0 < P" using period(1) by (simp add: P_def)
  have q: "quot n 2 = n div 2"
    using n0 by (simp add: quot_nonneg)
  have half: "0 \<le> n div 2" "n div 2 \<le> n"
    using n0 by simp_all
  have off: "- (n div 2) \<le> offset" "offset < n - n div 2" "\<bar>offset\<bar> \<le> n div 2"
    using lt i0 half by (simp_all add: offset_def)
  have "\<bar>offset * P\<bar> * 1000000000 \<le> n div 2 * P * 1000000000"
    using off(3) P0 by (simp add: abs_mult mult_right_mono)
  then have "\<bar>offset * P\<bar> * 1000000000 < 2 ^ 63"
    using period(2) unfolding P_def by linarith
  then have sec: "seconds (offset * P) = offset * P * 1000000000"
    by (rule seconds_id)
  define target where "target = clock 0 + seconds (offset * P)"
  have ut: "Unix target = Unix (clock 0) + offset * P"
    by (simp add: target_def sec Unix_add_seconds)
  have "- (n div 2) * P \<le> offset * P"
    using off(1) P0 by (intro mult_right_mono) auto
  then have ut0: "0 \<le> Unix target"
    using base(1) by (simp add: ut P_def)
  have "offset * P \<le> (n - n div 2) * P"
    using off(2) P0 by (intro mult_right_mono) auto
  then have ut1: "Unix target < 2 ^ 63"
    using base(2) by (simp add: ut P_def)
  have u0: "0 \<le> Unix (clock 0)"
  proof -
    have "0 \<le> n div 2 * P" using half(1) P0 by simp
    then show ?thesis using base(1) by (simp add: P_def)
  qed
  have one: "1 * P \<le> (n - n div 2) * P"
    using P0 n0 by (intro mult_right_mono) auto
  have P1: "Period c < 2 ^ 63"
    using u0 one base(2) by (simp add: P_def)
  have s0: "0 \<le> s"
    using u0 P0 by (simp add: s_def pos_imp_zdiv_nonneg_iff)
  have s1: "(s + 1) * P < 2 ^ 63"
  proof -
    have "s * P = Unix (clock 0) - Unix (clock 0) mod P"
      by (simp add: s_def minus_mod_eq_div_mult)
    moreover have "0 \<le> Unix (clock 0) mod P"
      using P0 by simp
    ultimately have "s * P \<le> Unix (clock 0)"
      by simp
    then show ?thesis
      using base(2) one by (simp add: distrib_right P_def)
  qed
  have step: "Unix target div Period c = s + offset"
    using P0 by (simp add: ut s_def P_def)
  have gen: "GenerateTOTPAt upper target c =
      (Inr (derived_code upper c (word_of_int (s + offset))), c)"
    using GenerateTOTPAt_step [OF period(1) P1 ut0 ut1, of upper] derived_code_valid [OF valid]
    by (simp add: step)
  have k: "1 \<le> Suc (nat i)" "Suc (nat i) \<le> nat n"
    using lt i0 by simp_all
  have rd: "Unix (clock (Suc (nat i))) div Period c = s"
    using readings [OF k] by (simp add: s_def P_def)
  have "0 \<le> Unix (clock (Suc (nat i))) div Period c"
    using s0 rd by simp
  then have rd0: "0 \<le> Unix (clock (Suc (nat i)))"
    using period(1) by (simp add: pos_imp_zdiv_nonneg_iff)
  have "(Unix (clock (Suc (nat i))) div Period c + 1) * Period c < 2 ^ 63"
    using s1 by (simp add: rd P_def)
  then have win: "GetCurrentTOTPWindow (clock (Suc (nat i))) c =
      ((time_Unix (s * P), time_Unix ((s + 1) * P)), c)"
    using GetCurrentTOTPWindow_step [OF period(1) rd0] by (simp add: rd P_def)
  have entry: "\<lparr>Code = derived_code upper c (word_of_int (s + offset)),
        ValidFrom = (if offset \<noteq> 0 then time_Unix (s * P) + seconds (offset * P)
                     else time_Unix (s * P)),
        ValidTo = (if offset \<noteq> 0 then time_Unix ((s + 1) * P) + seconds (offset * P)
                   else time_Unix ((s + 1) * P)),
        IsCurrent = (offset = 0)\<rparr> = batch_entry upper c n s i"
    unfolding sec by (simp add: batch_entry_def time_Unix_def offset_def P_def algebra_simps)
  have "batch_loop upper clock (clock 0) n i entries c =
      batch_loop upper clock (clock 0) n (i + 1)
        (entries @
          [\<lparr>Code = derived_code upper c (word_of_int (s + offset)),
            ValidFrom = (if offset \<noteq> 0 then time_Unix (s * P) + seconds (offset * P)
                         else time_Unix (s * P)),
            ValidTo = (if offset \<noteq> 0 then time_Unix ((s + 1) * P) + seconds (offset * P)
                       else time_Unix ((s + 1) * P)),
            IsCurrent = (offset = 0)\<rparr>]) c"
    using lt gen win
    by (subst batch_loop.simps) (simp add: Let_def q offset_def [symmetric] P_def [symmetric]
        target_def [symmetric] split del: if_split cong: if_cong)
  then have "batch_loop upper clock (clock 0) n i entries c =
      batch_loop upper clock (clock 0) n (i + 1) (entries @ [batch_entry upper c n s i]) c"
    unfolding entry .
  also have "\<dots> = (Inr ((entries @ [batch_entry upper c n s i]) @
      map (batch_entry upper c n (Unix (clock 0) div Period c)) [i + 1..n - 1]), c)"
    using Suc.hyps(2) lt i0 by (intro Suc.hyps(1)) auto
  also have "[i..n - 1] = i # [i + 1..n - 1]"
    using lt by (simp add: upto_rec1)
  then have "(entries @ [batch_entry upper c n s i]) @
      map (batch_entry upper c n (Unix (clock 0) div Period c)) [i + 1..n - 1] =
      entries @ map (batch_entry upper c n (Unix (clock 0) div Period c)) [i..n - 1]"
    by (simp add: s_def P_def)
  finally show ?case .
qed

lemma filter_eq_upto:
  assumes "a \<le> m" "m \<le> b"
  shows "filter (\<lambda>i. i = m) [a..b] = [m]"
proof -
  have "[a..b] = [a..m - 1] @ m # [m + 1..b]"
    using assms by (rule upto_split3)
  then show ?thesis by (simp add: filter_empty_conv)
qed

lemma batch_entries_current:
  assumes "1 \<le> n"
  shows "length (filter IsCurrent (map (batch_entry upper c n s) [0..n - 1])) = 1"
proof -
  have "filter IsCurrent (map (batch_entry upper c n s) [0..n - 1]) =
      map (batch_entry upper c n s) (filter (\<lambda>i. i = n div 2) [0..n - 1])"
    by (simp add: filter_map comp_def batch_entry_def)
  also have "filter (\<lambda>i. i = n div 2) [0..n - 1] = [n div 2]"
    using assms by (intro filter_eq_upto) auto
  finally show ?thesis by simp
qed

lemma batch_entries_nth:
  assumes "i < nat n"
  shows "map (batch_entry upper c n s) [0..n - 1] ! i = batch_entry upper c n s (int i)"
  using assms by (simp add: nth_upto)

lemma rfc4226_secret_code:
  assumes "Secret c = rfc4226_secret" "Digits c = 6" "Algorithm c = AlgorithmSHA1"
  shows "generateOTP ToUpper_ascii c k = generateOTP ToUpper_ascii (rfc4226_config 6 0) k"
  by (rule generateOTP_fields) (simp_all add: assms rfc4226_config_def NewHOTP_def)

lemmas batch_eval = GenerateTOTPBatch_def GenerateTOTPAt_def GetCurrentTOTPWindow_def Let_def
  quot_def seconds_def int64_wrap_def Unix_def time_Unix_def clock_at_def clock_from_def
  batch_loop.simps

text \<open>
  Six calls, computed. The secret is that of RFC 4226, with six digits; the codes of the
  steps 0, 1 and 2 are 755224, 287082 and 359152.

  Two entries at second 59 with period 30, the current step being 1: the offsets are
  \<open>- 1\<close> and 0.
\<close>

lemma batch_even:
  "fst (GenerateTOTPBatch ToUpper_ascii 2 (clock_at 59000000000) rfc4226_totp) =
     Inr [\<lparr>Code = ''755224'', ValidFrom = 0, ValidTo = 30000000000, IsCurrent = False\<rparr>,
          \<lparr>Code = ''287082'', ValidFrom = 30000000000, ValidTo = 60000000000,
           IsCurrent = True\<rparr>]"
  by (simp add: batch_eval rfc4226_totp_fields rfc4226_totp_code rfc4226_code_0 rfc4226_code_1)

text \<open>
  The same call with a clock that reads 59 s, 59.5 s and 60 s: the second entry is given
  the interval of the step in which its reading of the clock falls, and the intervals of
  the two entries are not contiguous.
\<close>

lemma batch_crossing:
  "fst (GenerateTOTPBatch ToUpper_ascii 2 (clock_from 59000000000 500000000) rfc4226_totp) =
     Inr [\<lparr>Code = ''755224'', ValidFrom = 0, ValidTo = 30000000000, IsCurrent = False\<rparr>,
          \<lparr>Code = ''287082'', ValidFrom = 60000000000, ValidTo = 90000000000,
           IsCurrent = True\<rparr>]"
  by (simp add: batch_eval rfc4226_totp_fields rfc4226_totp_code rfc4226_code_0 rfc4226_code_1)

text \<open>
  Three entries at second 59 for a configuration whose period is 0: the time of the first
  entry is computed with the period 0, before \<open>GenerateTOTPAt\<close> writes the default, so the
  first entry carries the code of the current step with the interval of the step before.
\<close>

lemma batch_zero_period:
  "fst (GenerateTOTPBatch ToUpper_ascii 3 (clock_at 59000000000) (rfc4226_config 6 0)) =
     Inr [\<lparr>Code = ''287082'', ValidFrom = 0, ValidTo = 30000000000, IsCurrent = False\<rparr>,
          \<lparr>Code = ''287082'', ValidFrom = 30000000000, ValidTo = 60000000000,
           IsCurrent = True\<rparr>,
          \<lparr>Code = ''359152'', ValidFrom = 60000000000, ValidTo = 90000000000,
           IsCurrent = False\<rparr>]"
proof -
  have g: "generateOTP ToUpper_ascii ((rfc4226_config 6 0)\<lparr>Period := 30\<rparr>) k =
      generateOTP ToUpper_ascii (rfc4226_config 6 0) k" for k
    by (rule rfc4226_secret_code) (simp_all add: rfc4226_config_def NewHOTP_def)
  have p: "Period (rfc4226_config 6 0) = 0"
    by (simp add: rfc4226_config_def NewHOTP_def)
  show ?thesis
    by (simp add: batch_eval g p rfc4226_code_1 rfc4226_code_2)
qed

text \<open>
  Two entries with a period of \<open>2 ^ 34\<close> seconds, read 59 seconds into the step 1: the
  duration of one period overflows the 64-bit count of nanoseconds, and the first entry is
  neither for the step 0 nor next to the second one.
\<close>

lemma batch_long_period:
  "fst (GenerateTOTPBatch ToUpper_ascii 2 (clock_at 17179869243000000000)
          (NewTOTP rfc4226_secret [] ''alice'' 6 17179869184)) =
     Inr [\<lparr>Code = ''287082'', ValidFrom = 18446744073709551616,
           ValidTo = 35626613257709551616, IsCurrent = False\<rparr>,
          \<lparr>Code = ''287082'', ValidFrom = 17179869184000000000,
           ValidTo = 34359738368000000000, IsCurrent = True\<rparr>]"
proof -
  have g: "generateOTP ToUpper_ascii (NewTOTP rfc4226_secret [] ''alice'' 6 17179869184) k =
      generateOTP ToUpper_ascii (rfc4226_config 6 0) k" for k
    by (rule rfc4226_secret_code) (simp_all add: NewTOTP_def)
  have p: "Period (NewTOTP rfc4226_secret [] ''alice'' 6 17179869184) = 17179869184"
    by (simp add: NewTOTP_def)
  show ?thesis
    by (simp add: batch_eval g p rfc4226_code_1)
qed

text \<open>
  Three entries at second 29, in the step 0: the time of the first entry is one second
  before the epoch, its seconds are converted to \<open>uint64\<close>, and the entry carries the code
  of the step 614891469123651720.
\<close>

lemma batch_before_epoch:
  "fst (GenerateTOTPBatch ToUpper_ascii 3 (clock_at 29000000000) rfc4226_totp) =
     Inr [\<lparr>Code = ''277486'', ValidFrom = - 30000000000, ValidTo = 0, IsCurrent = False\<rparr>,
          \<lparr>Code = ''755224'', ValidFrom = 0, ValidTo = 30000000000, IsCurrent = True\<rparr>,
          \<lparr>Code = ''287082'', ValidFrom = 30000000000, ValidTo = 60000000000,
           IsCurrent = False\<rparr>]"
  by (simp add: batch_eval rfc4226_totp_fields rfc4226_totp_code rfc4226_code_0 rfc4226_code_1
      rfc4226_code_epoch)

text \<open>
  One entry at the last second an \<open>int64\<close> counts: the end of the step is a product that
  wraps around, and the interval ends before it starts.
\<close>

lemma batch_last_second:
  "fst (GenerateTOTPBatch ToUpper_ascii 1 (clock_at 9223372036854775807000000000) rfc4226_totp) =
     Inr [\<lparr>Code = ''451934'', ValidFrom = 9223372036854775800000000000,
           ValidTo = - 9223372036854775786000000000, IsCurrent = True\<rparr>]"
  by (simp add: batch_eval rfc4226_totp_fields rfc4226_totp_code rfc4226_code_far)

text \<open>
  Claim C8, as the code has it. Take \<open>n \<ge> 1\<close>, a valid digit count, a secret that decodes
  and a positive period; let \<open>s\<close> be the step of the first reading of the clock, and let the
  steps from \<open>s - n div 2\<close> to \<open>s + (n - n div 2)\<close> lie between the epoch and the last second
  an \<open>int64\<close> counts, \<open>n div 2\<close> periods being a duration that 64 bits of nanoseconds hold;
  let the other readings of the clock during the call lie in the step \<open>s\<close> too. Then
  \<open>GenerateTOTPBatch\<close> returns exactly \<open>n\<close> entries; the entry of index \<open>i\<close> has offset
  \<open>i - n div 2\<close>, so the offsets run from \<open>- (n div 2)\<close> to \<open>n - 1 - n div 2\<close>; it carries
  the code of step \<open>s + offset\<close> and an interval that starts at the beginning of that step
  and is one period long; exactly one entry is flagged current, the one with offset 0; and
  each interval ends where the next one starts.
\<close>

theorem GenerateTOTPBatch_entries:
  assumes "0 < Digits c" "Digits c \<le> 10" "decodeSecret upper c = Inr key" and "1 \<le> n"
    and "0 < Period c" "n div 2 * Period c * 1000000000 < 2 ^ 63"
    and "n div 2 * Period c \<le> Unix (clock 0)"
    and "Unix (clock 0) + (n - n div 2) * Period c < 2 ^ 63"
    and "\<forall>k. 1 \<le> k \<and> k \<le> nat n \<longrightarrow>
        Unix (clock k) div Period c = Unix (clock 0) div Period c"
  shows "\<exists>entries. fst (GenerateTOTPBatch upper n clock c) = Inr entries
       \<and> length entries = nat n
       \<and> length (filter IsCurrent entries) = 1
       \<and> (\<forall>i < nat n.
            generateOTP upper c (word_of_int (Unix (clock 0) div Period c + (int i - n div 2)))
              = Inr (Code (entries ! i))
            \<and> ValidFrom (entries ! i)
              = time_Unix ((Unix (clock 0) div Period c + (int i - n div 2)) * Period c)
            \<and> ValidTo (entries ! i) - ValidFrom (entries ! i) = Period c * 1000000000
            \<and> IsCurrent (entries ! i) = (int i = n div 2))
       \<and> (\<forall>i. Suc i < nat n \<longrightarrow> ValidTo (entries ! i) = ValidFrom (entries ! Suc i))"
proof -
  define s where "s = Unix (clock 0) div Period c"
  define entries where "entries = map (batch_entry upper c n s) [0..n - 1]"
  have rd: "\<And>k. 1 \<le> k \<Longrightarrow> k \<le> nat n \<Longrightarrow>
        Unix (clock k) div Period c = Unix (clock 0) div Period c"
    using assms(9) by blast
  have "batch_loop upper clock (clock 0) n 0 [] c =
      (Inr ([] @ map (batch_entry upper c n (Unix (clock 0) div Period c)) [0..n - 1]), c)"
  proof (rule batch_loop_entries [where key = key])
    show "\<And>k. 1 \<le> k \<Longrightarrow> k \<le> nat n \<Longrightarrow>
        Unix (clock k) div Period c = Unix (clock 0) div Period c"
      by (rule rd)
  qed (use assms in simp_all)
  then have r: "fst (GenerateTOTPBatch upper n clock c) = Inr entries"
    using assms(4) by (simp add: GenerateTOTPBatch_def entries_def s_def)
  have len: "length entries = nat n"
    by (simp add: entries_def)
  have cur: "length (filter IsCurrent entries) = 1"
    unfolding entries_def using assms(4) by (rule batch_entries_current)
  have nth: "entries ! i = batch_entry upper c n s (int i)" if "i < nat n" for i
    unfolding entries_def using that by (rule batch_entries_nth)
  have each: "generateOTP upper c (word_of_int (s + (int i - n div 2))) = Inr (Code (entries ! i))
      \<and> ValidFrom (entries ! i) = time_Unix ((s + (int i - n div 2)) * Period c)
      \<and> ValidTo (entries ! i) - ValidFrom (entries ! i) = Period c * 1000000000
      \<and> IsCurrent (entries ! i) = (int i = n div 2)" if "i < nat n" for i
    using derived_code_valid [OF assms(1-3)]
    by (simp add: nth [OF that] batch_entry_def time_Unix_def algebra_simps)
  have next_: "ValidTo (entries ! i) = ValidFrom (entries ! Suc i)" if "Suc i < nat n" for i
  proof -
    have "i < nat n" using that by simp
    then show ?thesis
      by (simp add: nth nth [OF that] batch_entry_def algebra_simps)
  qed
  from r len cur each next_ show ?thesis
    unfolding s_def by blast
qed

theorem GenerateTOTPBatch_entries_witness:
  "0 < Digits rfc4226_totp \<and> Digits rfc4226_totp \<le> 10
   \<and> decodeSecret ToUpper_ascii rfc4226_totp = Inr rfc4226_key \<and> (1 :: int) \<le> 3
   \<and> 0 < Period rfc4226_totp \<and> 3 div 2 * Period rfc4226_totp * 1000000000 < 2 ^ 63
   \<and> 3 div 2 * Period rfc4226_totp \<le> Unix (clock_at 59000000000 0)
   \<and> Unix (clock_at 59000000000 0) + (3 - 3 div 2) * Period rfc4226_totp < 2 ^ 63
   \<and> (\<exists>entries.
          fst (GenerateTOTPBatch ToUpper_ascii 3 (clock_at 59000000000) rfc4226_totp) = Inr entries
          \<and> length entries = 3 \<and> length (filter IsCurrent entries) = 1
          \<and> generateOTP ToUpper_ascii rfc4226_totp 0 = Inr (Code (entries ! 0))
          \<and> IsCurrent (entries ! 1)
          \<and> ValidTo (entries ! 0) = ValidFrom (entries ! 1))"
proof -
  have h: "0 < Digits rfc4226_totp" "Digits rfc4226_totp \<le> 10"
      "decodeSecret ToUpper_ascii rfc4226_totp = Inr rfc4226_key" "(1 :: int) \<le> 3"
      "0 < Period rfc4226_totp" "3 div 2 * Period rfc4226_totp * 1000000000 < 2 ^ 63"
      "3 div 2 * Period rfc4226_totp \<le> Unix (clock_at 59000000000 0)"
      "Unix (clock_at 59000000000 0) + (3 - 3 div 2) * Period rfc4226_totp < 2 ^ 63"
      "\<forall>k. 1 \<le> k \<and> k \<le> nat 3 \<longrightarrow>
        Unix (clock_at 59000000000 k) div Period rfc4226_totp =
          Unix (clock_at 59000000000 0) div Period rfc4226_totp"
    by (simp_all add: rfc4226_totp_fields Unix_def clock_at_def)
  from GenerateTOTPBatch_entries [OF h] obtain entries where
    e: "fst (GenerateTOTPBatch ToUpper_ascii 3 (clock_at 59000000000) rfc4226_totp) = Inr entries"
      "length entries = nat 3" "length (filter IsCurrent entries) = 1"
      "\<forall>i < nat 3.
            generateOTP ToUpper_ascii rfc4226_totp
                (word_of_int (Unix (clock_at 59000000000 0) div Period rfc4226_totp
                   + (int i - 3 div 2)))
              = Inr (Code (entries ! i))
            \<and> ValidFrom (entries ! i)
              = time_Unix ((Unix (clock_at 59000000000 0) div Period rfc4226_totp
                   + (int i - 3 div 2)) * Period rfc4226_totp)
            \<and> ValidTo (entries ! i) - ValidFrom (entries ! i) = Period rfc4226_totp * 1000000000
            \<and> IsCurrent (entries ! i) = (int i = 3 div 2)"
      "\<forall>i. Suc i < nat 3 \<longrightarrow> ValidTo (entries ! i) = ValidFrom (entries ! Suc i)"
    by blast
  have "generateOTP ToUpper_ascii rfc4226_totp 0 = Inr (Code (entries ! 0))"
    using e(4) [rule_format, of 0] by (simp add: Unix_def clock_at_def rfc4226_totp_fields)
  moreover have "IsCurrent (entries ! 1)"
    using e(4) [rule_format, of 1] by simp
  moreover have "ValidTo (entries ! 0) = ValidFrom (entries ! 1)"
    using e(5) [rule_format, of 0] by simp
  ultimately show ?thesis
    using h(1-8) e(1-3) by simp
qed

text \<open>
  The claim as it is written fails in each of the six calls above. For an even \<open>n\<close> the
  offsets do not reach \<open>n div 2\<close>: with \<open>n = 2\<close> the entries are those of the offsets \<open>- 1\<close>
  and 0. When the clock passes into the next step during the call, two intervals are not
  contiguous. With a period of 0 on entry two entries carry the code of one step. With a
  period too long for a duration the intervals overlap. Less than \<open>n div 2\<close> periods after
  the epoch, the first entry is not for the step before the step 0, whose code
  \<open>ValidateTOTPAt\<close> takes to be that of the counter \<open>2 ^ 64 - 1\<close>, 094451. At the last
  second an \<open>int64\<close> counts, the interval has no length of one period.
\<close>

theorem GenerateTOTPBatch_counterexample:
  "fst (GenerateTOTPBatch ToUpper_ascii 2 (clock_at 59000000000) rfc4226_totp) =
     Inr [\<lparr>Code = ''755224'', ValidFrom = 0, ValidTo = 30000000000, IsCurrent = False\<rparr>,
          \<lparr>Code = ''287082'', ValidFrom = 30000000000, ValidTo = 60000000000,
           IsCurrent = True\<rparr>]
   \<and> fst (GenerateTOTPBatch ToUpper_ascii 2 (clock_from 59000000000 500000000) rfc4226_totp) =
     Inr [\<lparr>Code = ''755224'', ValidFrom = 0, ValidTo = 30000000000, IsCurrent = False\<rparr>,
          \<lparr>Code = ''287082'', ValidFrom = 60000000000, ValidTo = 90000000000,
           IsCurrent = True\<rparr>]
   \<and> fst (GenerateTOTPBatch ToUpper_ascii 3 (clock_at 59000000000) (rfc4226_config 6 0)) =
     Inr [\<lparr>Code = ''287082'', ValidFrom = 0, ValidTo = 30000000000, IsCurrent = False\<rparr>,
          \<lparr>Code = ''287082'', ValidFrom = 30000000000, ValidTo = 60000000000,
           IsCurrent = True\<rparr>,
          \<lparr>Code = ''359152'', ValidFrom = 60000000000, ValidTo = 90000000000,
           IsCurrent = False\<rparr>]
   \<and> fst (GenerateTOTPBatch ToUpper_ascii 2 (clock_at 17179869243000000000)
          (NewTOTP rfc4226_secret [] ''alice'' 6 17179869184)) =
     Inr [\<lparr>Code = ''287082'', ValidFrom = 18446744073709551616,
           ValidTo = 35626613257709551616, IsCurrent = False\<rparr>,
          \<lparr>Code = ''287082'', ValidFrom = 17179869184000000000,
           ValidTo = 34359738368000000000, IsCurrent = True\<rparr>]
   \<and> fst (GenerateTOTPBatch ToUpper_ascii 3 (clock_at 29000000000) rfc4226_totp) =
     Inr [\<lparr>Code = ''277486'', ValidFrom = - 30000000000, ValidTo = 0, IsCurrent = False\<rparr>,
          \<lparr>Code = ''755224'', ValidFrom = 0, ValidTo = 30000000000, IsCurrent = True\<rparr>,
          \<lparr>Code = ''287082'', ValidFrom = 30000000000, ValidTo = 60000000000,
           IsCurrent = False\<rparr>]
   \<and> generateOTP ToUpper_ascii rfc4226_totp 18446744073709551615 = Inr ''094451''
   \<and> fst (GenerateTOTPBatch ToUpper_ascii 1 (clock_at 9223372036854775807000000000)
          rfc4226_totp) =
     Inr [\<lparr>Code = ''451934'', ValidFrom = 9223372036854775800000000000,
           ValidTo = - 9223372036854775786000000000, IsCurrent = True\<rparr>]"
  by (intro conjI batch_even batch_crossing batch_zero_period batch_long_period
      batch_before_epoch batch_last_second) (simp add: rfc4226_totp_code rfc4226_code_max)

end
